theory Spec2Isabelle
  imports Complex_Main "HOL-Library.Word"
begin

section \<open>The StarGo mount driver (lx200stargo.cpp)\<close>

text \<open>
  A shallow embedding of the protocol engine of the Avalon StarGo driver: the
  \<open>sscanf\<close> and \<open>sprintf\<close> conversions the driver relies on, the serial line,
  the query engine (\<open>sendQuery\<close>), the telegram parser (\<open>ParseMotionState\<close>),
  the poll cycle (\<open>ReadScopeStatus\<close>) and the guide commands.
\<close>

subsection \<open>Enumerations of the driver and of the device framework\<close>

datatype MotorsState = MOTORS_OFF | MOTORS_DEC_ONLY | MOTORS_RA_ONLY | MOTORS_ON

datatype TelescopeTrackMode = TRACK_SIDEREAL | TRACK_SOLAR | TRACK_LUNAR

datatype TelescopeSlewRate = SLEW_GUIDE | SLEW_CENTERING | SLEW_FIND | SLEW_MAX

datatype TelescopeStatus =
  SCOPE_IDLE | SCOPE_SLEWING | SCOPE_TRACKING | SCOPE_PARKING | SCOPE_PARKED

datatype TelescopePierSide = PIER_UNKNOWN | PIER_WEST | PIER_EAST

datatype IPState = IPS_IDLE | IPS_OK | IPS_BUSY | IPS_ALERT

datatype TDirection = LX200_NORTH | LX200_WEST | LX200_EAST | LX200_SOUTH

datatype TSlew = LX200_SLEW_MAX | LX200_SLEW_FIND | LX200_SLEW_CENTER | LX200_SLEW_GUIDE

datatype INDI_DIR_NS = DIRECTION_NORTH | DIRECTION_SOUTH

datatype INDI_DIR_WE = DIRECTION_WEST | DIRECTION_EAST

datatype TelescopeMotionCommand = MOTION_START | MOTION_STOP

datatype tty_code = TTY_OK | TTY_WRITE_ERROR | TTY_TIME_OUT

subsection \<open>Characters, digits and the conversions of \<open>sscanf\<close>\<close>

definition isspace_c :: "char \<Rightarrow> bool" where
  "isspace_c c \<longleftrightarrow> c \<in> set [CHR 0x20, CHR 0x09, CHR 0x0A, CHR 0x0B, CHR 0x0C, CHR 0x0D]"

definition isdigit_c :: "char \<Rightarrow> bool" where
  "isdigit_c c \<longleftrightarrow> 48 \<le> (of_char c :: nat) \<and> (of_char c :: nat) \<le> 57"

definition digit_val :: "char \<Rightarrow> nat" where
  "digit_val c = of_char c - 48"

definition digit_char :: "nat \<Rightarrow> char" where
  "digit_char n = char_of (48 + n)"

text \<open>The value of a string of decimal digits, most significant digit first.\<close>

definition dec_val :: "string \<Rightarrow> nat" where
  "dec_val ds = foldl (\<lambda>a c. 10 * a + digit_val c) 0 ds"

definition skip_ws :: "string \<Rightarrow> string" where
  "skip_ws s = dropWhile isspace_c s"

text \<open>
  The text a numeric conversion of field width \<open>w\<close> accepts: an optional sign, which
  counts towards the width, then the digits that fit. The result is the sign, the digits
  and the input that is left; no digit at all is a matching failure.
\<close>

definition scan_sign :: "nat \<Rightarrow> string \<Rightarrow> bool \<times> nat \<times> string" where
  "scan_sign w s =
     (case s of
        [] \<Rightarrow> (False, w, s)
      | c # r \<Rightarrow>
          if 0 < w \<and> (c = CHR ''-'' \<or> c = CHR ''+'') then (c = CHR ''-'', w - 1, r)
          else (False, w, s))"

definition scan_int :: "nat \<Rightarrow> string \<Rightarrow> (int \<times> string) option" where
  "scan_int w s =
     (let (neg, w1, s1) = scan_sign w s;
          ds = takeWhile isdigit_c (take w1 s1)
      in if ds = [] then None
         else Some ((if neg then - int (dec_val ds) else int (dec_val ds)),
                    drop (length ds) s1))"

text \<open>
  \<open>%lf\<close> with a field width: sign, integer digits, and an optional point with
  fraction digits, both inside the width; at least one digit is needed. The scanned
  double is represented by the rational number its text denotes. The exponent,
  hexadecimal, \<open>inf\<close> and \<open>nan\<close> spellings, which all need a letter, are not
  modelled: a letter ends the number here.
\<close>

definition scan_float :: "nat \<Rightarrow> string \<Rightarrow> (rat \<times> string) option" where
  "scan_float w s =
     (let (neg, w1, s1) = scan_sign w s;
          ip = takeWhile isdigit_c (take w1 s1);
          s2 = drop (length ip) s1;
          w2 = w1 - length ip;
          pt = (0 < w2 \<and> s2 \<noteq> [] \<and> hd s2 = CHR ''.'');
          fp = (if pt then takeWhile isdigit_c (take (w2 - 1) (tl s2)) else []);
          s3 = (if pt then drop (length fp) (tl s2) else s2);
          v = of_nat (dec_val ip) + of_nat (dec_val fp) / (10 ^ length fp)
      in if ip = [] \<and> fp = [] then None
         else Some ((if neg then - v else v), s3))"

text \<open>The directives of a format string, and the values a call assigns.\<close>

datatype conv =
  Lit char        \<comment> \<open>an ordinary character of the format\<close>
  | ConvD nat     \<comment> \<open>\<open>%d\<close> with a field width\<close>
  | ConvLF nat    \<comment> \<open>\<open>%lf\<close> with a field width\<close>
  | ConvC         \<comment> \<open>\<open>%c\<close>\<close>
  | ConvS nat     \<comment> \<open>\<open>%s\<close> with a field width\<close>

datatype sval = IntV int | DblV rat | ChrV char | StrV string

text \<open>
  The return value when the input ends before a directive is satisfied: \<open>EOF\<close> (-1)
  when no conversion has completed yet, the number of assignments otherwise.
\<close>

definition input_failure :: "sval list \<Rightarrow> int \<times> sval list" where
  "input_failure acc = ((if acc = [] then - 1 else int (length acc)), acc)"

definition matching_failure :: "sval list \<Rightarrow> int \<times> sval list" where
  "matching_failure acc = (int (length acc), acc)"

fun sscanf_from :: "conv list \<Rightarrow> string \<Rightarrow> sval list \<Rightarrow> int \<times> sval list" where
  "sscanf_from [] inp acc = (int (length acc), acc)"
| "sscanf_from (Lit c # fs) inp acc =
     (case inp of
        [] \<Rightarrow> input_failure acc
      | x # xs \<Rightarrow> if x = c then sscanf_from fs xs acc else matching_failure acc)"
| "sscanf_from (ConvD w # fs) inp acc =
     (if skip_ws inp = [] then input_failure acc
      else case scan_int w (skip_ws inp) of
             None \<Rightarrow> matching_failure acc
           | Some (v, rest) \<Rightarrow> sscanf_from fs rest (acc @ [IntV v]))"
| "sscanf_from (ConvLF w # fs) inp acc =
     (if skip_ws inp = [] then input_failure acc
      else case scan_float w (skip_ws inp) of
             None \<Rightarrow> matching_failure acc
           | Some (v, rest) \<Rightarrow> sscanf_from fs rest (acc @ [DblV v]))"
| "sscanf_from (ConvC # fs) inp acc =
     (case inp of
        [] \<Rightarrow> input_failure acc
      | x # xs \<Rightarrow> sscanf_from fs xs (acc @ [ChrV x]))"
| "sscanf_from (ConvS w # fs) inp acc =
     (if skip_ws inp = [] then input_failure acc
      else let tok = takeWhile (\<lambda>c. \<not> isspace_c c) (take w (skip_ws inp))
           in sscanf_from fs (drop (length tok) (skip_ws inp)) (acc @ [StrV tok]))"

definition sscanf :: "string \<Rightarrow> conv list \<Rightarrow> int \<times> sval list" where
  "sscanf inp fmt = sscanf_from fmt inp []"

subsection \<open>The conversions of \<open>sprintf\<close>\<close>

fun show_nat :: "nat \<Rightarrow> string" where
  "show_nat n = (if n < 10 then [digit_char n] else show_nat (n div 10) @ [digit_char (n mod 10)])"

definition pad0 :: "nat \<Rightarrow> string \<Rightarrow> string" where
  "pad0 w s = replicate (w - length s) (CHR ''0'') @ s"

text \<open>\<open>%0wd\<close>: zero padding to the width, a minus sign counting towards it.\<close>

definition fmt_0d :: "nat \<Rightarrow> int \<Rightarrow> string" where
  "fmt_0d w i = (if i < 0 then CHR ''-'' # pad0 (w - 1) (show_nat (nat (- i)))
                 else pad0 w (show_nat (nat i)))"

text \<open>\<open>%+0wi\<close>: as before, with the sign always written.\<close>

definition fmt_plus_0d :: "nat \<Rightarrow> int \<Rightarrow> string" where
  "fmt_plus_0d w i = (if i < 0 then CHR ''-'' # pad0 (w - 1) (show_nat (nat (- i)))
                      else CHR ''+'' # pad0 (w - 1) (show_nat (nat i)))"

text \<open>\<open>%0wu\<close> of a 32-bit unsigned value.\<close>

definition fmt_0u :: "nat \<Rightarrow> 32 word \<Rightarrow> string" where
  "fmt_0u w u = pad0 w (show_nat (unat u))"

subsection \<open>The serial line\<close>

text \<open>
  The driver reads and writes the port through \<open>tty_read_section\<close> and
  \<open>tty_write_string\<close> of the device framework. The line is modelled by what it
  holds: \<open>rx\<close> lists the frames the mount has put or will put on the line, in order,
  each already cut after the stop character its reader asks for, with the number of
  seconds a read has to be willing to wait for it (0 for a frame that is already
  there); \<open>tx\<close> collects the commands written and \<open>reads\<close> the stop character and
  timeout of every read issued. A link may break: \<open>tx_limit\<close> is the number of
  commands it carries before every further write fails, if there is such a number, and
  the port is \<open>writable\<close> as long as fewer commands have been written.
\<close>

record port =
  rx :: "(int \<times> string) list"
  tx_limit :: "nat option"
  tx :: "string list"
  reads :: "(char \<times> int) list"

definition writable :: "port \<Rightarrow> bool" where
  "writable p = (case tx_limit p of None \<Rightarrow> True | Some n \<Rightarrow> length (tx p) < n)"

definition tty_read_section :: "port \<Rightarrow> char \<Rightarrow> int \<Rightarrow> (tty_code \<times> string) \<times> port" where
  "tty_read_section p stop_char timeout =
     (let p' = p\<lparr>reads := reads p @ [(stop_char, timeout)]\<rparr>
      in case rx p of
           [] \<Rightarrow> ((TTY_TIME_OUT, []), p')
         | (d, bytes) # rest \<Rightarrow>
             if d \<le> timeout then ((TTY_OK, bytes), p'\<lparr>rx := rest\<rparr>)
             else ((TTY_TIME_OUT, []), p'))"

definition tty_write_string :: "port \<Rightarrow> string \<Rightarrow> tty_code \<times> port" where
  "tty_write_string p buffer =
     (if writable p then (TTY_OK, p\<lparr>tx := tx p @ [buffer]\<rparr>) else (TTY_WRITE_ERROR, p))"

subsection \<open>The state of the driver\<close>

text \<open>
  The members of \<open>LX200StarGo\<close> and of its base classes that the functions below
  read or write. A property vector keeps its state (\<open>_s\<close>) and its switches or value.
  \<open>IsParked\<close> is the parked flag of the base class, \<open>EqN\<close> what
  \<open>NewRaDec\<close> publishes, \<open>timers\<close> the timers registered with the event loop (identifier,
  milliseconds, axis callback), \<open>delays\<close> the number of quiet periods slept, and
  \<open>focuserAux1\<close> the focuser's poll result when the focuser is activated.
\<close>

datatype guide_axis = AxisNS | AxisWE

record driver =
  PortFD :: port
  connected :: bool
  simulation :: bool
  CurrentMotorsState :: MotorsState
  CurrentTrackMode :: TelescopeTrackMode
  CurrentSlewRate :: TelescopeSlewRate
  TrackState :: TelescopeStatus
  IsParked :: bool
  TrackingAdjustment_value :: rat
  TrackingAdjustmentNP_s :: IPState
  currentRA :: rat
  currentDEC :: rat
  EqN :: "rat \<times> rat"
  currentPierSide :: TelescopePierSide
  MountGotoHomeSP_s :: IPState
  MovementNSSP_s :: IPState
  MovementNSS :: "bool list"
  MovementWESP_s :: IPState
  MovementWES :: "bool list"
  SlewRateSP_s :: IPState
  SlewRateS :: "bool list"
  usePulseCommand :: bool
  GuideNSTID :: int
  GuideWETID :: int
  guide_direction_ns :: TDirection
  guide_direction_we :: TDirection
  timers :: "(int \<times> int \<times> guide_axis) list"
  delays :: nat
  focuserAux1 :: "bool option"

subsection \<open>Helper functions: receive, flush, transmit\<close>

text \<open>
  \<open>receive\<close> returns the frame read, without a final \<open>#\<close>, or nothing when the
  read did not succeed. A successful read holds at least the stop character; on an empty
  buffer, where the source would look in front of it, the model keeps the buffer.
\<close>

definition strip_hash :: "string \<Rightarrow> string" where
  "strip_hash buffer =
     (if buffer \<noteq> [] \<and> last buffer = CHR ''#'' then butlast buffer else buffer)"

definition receive :: "driver \<Rightarrow> char \<Rightarrow> int \<Rightarrow> string option \<times> driver" where
  "receive st end_char wait =
     (let timeout = wait;
          ((returnCode, buffer), p) = tty_read_section (PortFD st) end_char timeout;
          st' = st\<lparr>PortFD := p\<rparr>
      in if returnCode \<noteq> TTY_OK then (None, st') else (Some (strip_hash buffer), st'))"

definition flush :: "driver \<Rightarrow> driver" where
  "flush st = st"

definition transmit :: "driver \<Rightarrow> string \<Rightarrow> bool \<times> driver" where
  "transmit st buffer =
     (let (returnCode, p) = tty_write_string (PortFD (flush st)) buffer;
          st' = st\<lparr>PortFD := p\<rparr>
      in if returnCode \<noteq> TTY_OK then (False, st') else (True, st'))"

definition nanosleep :: "driver \<Rightarrow> driver" where
  "nanosleep st = st\<lparr>delays := Suc (delays st)\<rparr>"

subsection \<open>The telegram parser\<close>

definition motors_of :: "int \<Rightarrow> MotorsState \<Rightarrow> MotorsState" where
  "motors_of lmotor cur =
     (if lmotor = 0 then MOTORS_OFF
      else if lmotor = 1 then MOTORS_DEC_ONLY
      else if lmotor = 2 then MOTORS_RA_ONLY
      else if lmotor = 3 then MOTORS_ON
      else cur)"

definition track_mode_of :: "int \<Rightarrow> TelescopeTrackMode \<Rightarrow> TelescopeTrackMode" where
  "track_mode_of lmode cur =
     (if lmode = 0 then cur
      else if lmode = 1 then TRACK_LUNAR
      else if lmode = 2 then TRACK_SOLAR
      else if lmode = 3 then TRACK_SIDEREAL
      else cur)"

definition slew_rate_of :: "int \<Rightarrow> TelescopeSlewRate \<Rightarrow> TelescopeSlewRate" where
  "slew_rate_of lslew cur =
     (if lslew = 0 then SLEW_GUIDE
      else if lslew = 1 then SLEW_CENTERING
      else if lslew = 2 then SLEW_FIND
      else if lslew = 3 then SLEW_MAX
      else cur)"

text \<open>The format \<open>":Z1%01d%01d%01d"\<close>.\<close>

definition fmt_Z1 :: "conv list" where
  "fmt_Z1 = [Lit (CHR '':''), Lit (CHR ''Z''), Lit (CHR ''1''), ConvD 1, ConvD 1, ConvD 1]"

definition ParseMotionState :: "driver \<Rightarrow> string \<Rightarrow> bool \<times> driver" where
  "ParseMotionState st state =
     (case sscanf state fmt_Z1 of
        (rc, [IntV lmotor, IntV lmode, IntV lslew]) \<Rightarrow>
          if rc = 3 then
            (True, st\<lparr>CurrentMotorsState := motors_of lmotor (CurrentMotorsState st),
                      CurrentTrackMode := track_mode_of lmode (CurrentTrackMode st),
                      CurrentSlewRate := slew_rate_of lslew (CurrentSlewRate st)\<rparr>)
          else (False, st)
      | _ \<Rightarrow> (False, st))"

subsection \<open>The query engine\<close>

text \<open>
  The first loop of \<open>sendQuery\<close>:
  \<^verbatim>\<open>while (receive(lresponse, &lbytes, '#', 0)) { lbytes = 0; ParseMotionState(lresponse); ... }\<close>
\<close>

function drain_loop :: "driver \<Rightarrow> driver" where
  "drain_loop st =
     (case receive st (CHR ''#'') 0 of
        (None, st') \<Rightarrow> st'
      | (Some lresponse, st') \<Rightarrow> drain_loop (snd (ParseMotionState st' lresponse)))"
  by pat_completeness auto
termination
proof (relation "measure (\<lambda>st. length (rx (PortFD st)))", goal_cases)
  case 1
  show ?case by simp
next
  case (2 st x1 x2 l)
  have "PortFD (snd (ParseMotionState x2 l)) = PortFD x2"
    by (auto simp: ParseMotionState_def split: prod.splits list.splits sval.splits)
  moreover from 2 have "length (rx (PortFD x2)) < length (rx (PortFD st))"
    by (auto simp: receive_def tty_read_section_def Let_def
             split: list.splits prod.splits if_splits)
  ultimately show ?case by simp
qed

text \<open>
  The second loop, with its variables \<open>lwait\<close>, \<open>found\<close> and \<open>response\<close>:
  \<^verbatim>\<open>while (receive(lresponse, &lbytes, end, lwait)) {
    lbytes = 0;
    if (! ParseMotionState(lresponse)) {
      if (!found) strcpy(response, lresponse);
      found = true; lwait = 0; } }\<close>
\<close>

function reply_loop :: "driver \<Rightarrow> char \<Rightarrow> int \<Rightarrow> bool \<Rightarrow> string \<Rightarrow> string \<times> driver" where
  "reply_loop st end_char lwait found response =
     (case receive st end_char lwait of
        (None, st') \<Rightarrow> (response, st')
      | (Some lresponse, st') \<Rightarrow>
          (case ParseMotionState st' lresponse of
             (True, st'') \<Rightarrow> reply_loop st'' end_char lwait found response
           | (False, st'') \<Rightarrow>
               reply_loop st'' end_char 0 True (if \<not> found then lresponse else response)))"
  by pat_completeness auto
termination
proof (relation "measure (\<lambda>(st, e, w, f, r). length (rx (PortFD st)))", goal_cases)
  case 1
  show ?case by simp
next
  case (2 st e w f r x1 x2 l x1a x2a)
  have "PortFD (snd (ParseMotionState x2 l)) = PortFD x2"
    by (auto simp: ParseMotionState_def split: prod.splits list.splits sval.splits)
  with 2(3) have "PortFD x2a = PortFD x2"
    by (metis snd_conv)
  moreover from 2(1,2) have "length (rx (PortFD x2)) < length (rx (PortFD st))"
    by (auto simp: receive_def tty_read_section_def Let_def
             split: list.splits prod.splits if_splits)
  ultimately show ?case by simp
next
  case (3 st e w f r x1 x2 l x1a x2a)
  have "PortFD (snd (ParseMotionState x2 l)) = PortFD x2"
    by (auto simp: ParseMotionState_def split: prod.splits list.splits sval.splits)
  with 3(3) have "PortFD x2a = PortFD x2"
    by (metis snd_conv)
  moreover from 3(1,2) have "length (rx (PortFD x2)) < length (rx (PortFD st))"
    by (auto simp: receive_def tty_read_section_def Let_def
             split: list.splits prod.splits if_splits)
  ultimately show ?case by simp
qed

text \<open>
  \<open>sendQuery(cmd, response, end, wait)\<close>: the result is the return value and the
  contents of \<open>response\<close>.
\<close>

definition sendQuery :: "driver \<Rightarrow> string \<Rightarrow> char \<Rightarrow> int \<Rightarrow> (bool \<times> string) \<times> driver" where
  "sendQuery st cmd end_char wait =
     (let st1 = flush (drain_loop st);
          (sent, st2) = transmit st1 cmd
      in if \<not> sent then ((False, []), nanosleep st2)
         else let (response, st3) = reply_loop st2 end_char wait False []
              in ((True, response), nanosleep (flush st3)))"

subsection \<open>Status queries\<close>

text \<open>
  The functions below call \<open>sendQuery(cmd, response)\<close> with the default arguments of
  its declaration: the stop character \<open>#\<close> and the wait \<open>AVALON_TIMEOUT\<close>, a macro
  of the header, which is the parameter \<open>tmo\<close> here. The calls
  \<open>sendQuery(cmd, response, 0)\<close> are those with stop character \<open>#\<close> and wait 0.
\<close>

text \<open>The format \<open>"m%01d%01d"\<close>.\<close>

definition fmt_m :: "conv list" where
  "fmt_m = [Lit (CHR ''m''), ConvD 1, ConvD 1]"

definition getMotorStatus :: "driver \<Rightarrow> int \<Rightarrow> (int \<times> int) option \<times> driver" where
  "getMotorStatus st tmo =
     (let ((ok, response), st1) = sendQuery st '':X34#'' (CHR ''#'') tmo
      in if \<not> ok then (None, st1)
         else let (returnCode, vals) = sscanf response fmt_m
              in if returnCode < 2 then (None, st1)
                 else case vals of
                        [IntV x, IntV y] \<Rightarrow> (Some (x, y), st1)
                      | _ \<Rightarrow> (None, st1))"

text \<open>
  The format \<open>"p%32s[012AB]"\<close>: the characters after \<open>%32s\<close> are ordinary
  characters. The call fails only when \<open>sscanf\<close> returns 0; \<open>status\<close> keeps the
  value it had when nothing is assigned. The result is the token read; what storing it
  in the buffer of the caller does is part of \<open>poll_status\<close> below.
\<close>

definition fmt_p :: "conv list" where
  "fmt_p = [Lit (CHR ''p''), ConvS 32, Lit (CHR ''[''), Lit (CHR ''0''), Lit (CHR ''1''),
            Lit (CHR ''2''), Lit (CHR ''A''), Lit (CHR ''B''), Lit (CHR '']'')]"

definition getParkHomeStatus :: "driver \<Rightarrow> int \<Rightarrow> string \<Rightarrow> string option \<times> driver" where
  "getParkHomeStatus st tmo status =
     (let ((ok, response), st1) = sendQuery st '':X38#'' (CHR ''#'') tmo
      in if \<not> ok then (None, st1)
         else let (returnCode, vals) = sscanf response fmt_p
              in if returnCode = 0 then (None, st1)
                 else case vals of
                        [StrV tok] \<Rightarrow> (Some tok, st1)
                      | _ \<Rightarrow> (Some status, st1))"

text \<open>The format \<open>"or%04d#"\<close>; the value is \<open>raValue / 100.0\<close>.\<close>

definition fmt_or :: "conv list" where
  "fmt_or = [Lit (CHR ''o''), Lit (CHR ''r''), ConvD 4, Lit (CHR ''#'')]"

definition getTrackingAdjustment :: "driver \<Rightarrow> int \<Rightarrow> rat option \<times> driver" where
  "getTrackingAdjustment st tmo =
     (let ((ok, response), st1) = sendQuery st '':X42#'' (CHR ''#'') tmo
      in if \<not> ok then (None, st1)
         else case sscanf response fmt_or of
                (returnCode, IntV raValue # _) \<Rightarrow>
                  if returnCode < 1 then (None, st1) else (Some (of_int raValue / 100), st1)
              | _ \<Rightarrow> (None, st1))"

text \<open>
  The format \<open>"RD%08lf%08lf"\<close>. The results are \<open>r / 1.0e6\<close> and \<open>d / 1.0e5\<close>,
  as rational numbers.
\<close>

definition fmt_RD :: "conv list" where
  "fmt_RD = [Lit (CHR ''R''), Lit (CHR ''D''), ConvLF 8, ConvLF 8]"

definition getEqCoordinates :: "driver \<Rightarrow> int \<Rightarrow> (rat \<times> rat) option \<times> driver" where
  "getEqCoordinates st tmo =
     (let ((ok, response), st1) = sendQuery st '':X590#'' (CHR ''#'') tmo
      in if \<not> ok then (None, st1)
         else let (returnCode, vals) = sscanf response fmt_RD
              in if returnCode < 2 then (None, st1)
                 else case vals of
                        [DblV r, DblV d] \<Rightarrow> (Some (r / 1000000, d / 100000), st1)
                      | _ \<Rightarrow> (None, st1))"

text \<open>
  \<open>setPierSide\<close> of the base class publishes the pier side. The format is
  \<open>"P%c"\<close>; the call fails only when \<open>sscanf\<close> returns 0, so that on \<open>EOF\<close> the
  switch reads \<open>answer\<close> as the local variable was left: the parameter \<open>answer0\<close>.
\<close>

definition setPierSide :: "driver \<Rightarrow> TelescopePierSide \<Rightarrow> driver" where
  "setPierSide st side = st\<lparr>currentPierSide := side\<rparr>"

definition fmt_P :: "conv list" where
  "fmt_P = [Lit (CHR ''P''), ConvC]"

definition syncSideOfPier :: "driver \<Rightarrow> int \<Rightarrow> char \<Rightarrow> bool \<times> driver" where
  "syncSideOfPier st tmo answer0 =
     (let ((ok, response), st1) = sendQuery st '':X39#'' (CHR ''#'') tmo
      in if \<not> ok then (False, st1)
         else let (returnCode, vals) = sscanf response fmt_P
              in if returnCode = 0 then (False, st1)
                 else let answer = (case vals of [ChrV c] \<Rightarrow> c | _ \<Rightarrow> answer0)
                      in if answer = CHR ''X'' then (True, setPierSide st1 PIER_UNKNOWN)
                         else if answer = CHR ''W'' then (True, setPierSide st1 PIER_EAST)
                         else if answer = CHR ''E'' then (True, setPierSide st1 PIER_WEST)
                         else (True, st1))"

subsection \<open>The poll cycle\<close>

text \<open>
  \<open>SetParked\<close> hands over to \<open>INDI::Telescope::SetParked\<close>, the parked
  notification of the base class, which is not part of this source: it is the parameter
  \<open>Telescope_SetParked\<close>, any function of the driver and the flag.
\<close>

definition SetParked :: "(driver \<Rightarrow> bool \<Rightarrow> driver) \<Rightarrow> driver \<Rightarrow> bool \<Rightarrow> driver" where
  "SetParked Telescope_SetParked st isparked = Telescope_SetParked st isparked"

text \<open>
  Lines 542 to 575 of \<open>ReadScopeStatus\<close>: the new track state, a local variable,
  and the driver after the park and goto-home bookkeeping.
\<close>

definition park_motor_evaluation ::
  "(driver \<Rightarrow> bool \<Rightarrow> driver) \<Rightarrow> driver \<Rightarrow> string \<Rightarrow> int \<Rightarrow> int \<Rightarrow>
     TelescopeStatus \<times> driver" where
  "park_motor_evaluation Telescope_SetParked st parkHomeStatus x y =
     (if parkHomeStatus = ''2'' then
        (SCOPE_PARKED,
         (if TrackState st \<noteq> SCOPE_PARKED then SetParked Telescope_SetParked st True else st))
      else
        let st1 = (if TrackState st = SCOPE_PARKED then SetParked Telescope_SetParked st False
                   else st)
        in if x = 0 \<and> y = 0 then
             (SCOPE_IDLE,
              (if MountGotoHomeSP_s st1 = IPS_BUSY then st1\<lparr>MountGotoHomeSP_s := IPS_OK\<rparr>
               else st1))
           else if x = 1 \<and> y = 0 then (SCOPE_TRACKING, st1)
           else (TrackState st, st1))"

text \<open>Lines 577 to 586: the tracking adjustment is read and published.\<close>

definition publish_tracking_adjustment :: "driver \<Rightarrow> int \<Rightarrow> driver" where
  "publish_tracking_adjustment st tmo =
     (case getTrackingAdjustment st tmo of
        (Some raCorrection, st1) \<Rightarrow>
          st1\<lparr>TrackingAdjustment_value := raCorrection, TrackingAdjustmentNP_s := IPS_OK\<rparr>
      | (None, st1) \<Rightarrow> st1\<lparr>TrackingAdjustmentNP_s := IPS_ALERT\<rparr>)"

text \<open>Lines 588 to 611: coordinates, track state, pier side and the focuser.\<close>

definition publish_coordinates ::
  "driver \<Rightarrow> int \<Rightarrow> char \<Rightarrow> TelescopeStatus \<Rightarrow> bool \<times> driver" where
  "publish_coordinates st tmo answer0 newTrackState =
     (case getEqCoordinates st tmo of
        (None, st1) \<Rightarrow> (False, st1)
      | (Some (r, d), st1) \<Rightarrow>
          let st2 = st1\<lparr>currentRA := r, currentDEC := d, TrackState := newTrackState,
                        EqN := (r, d)\<rparr>;
              (synced, st3) = syncSideOfPier st2 tmo answer0
          in if \<not> synced then (False, st3)
             else case focuserAux1 st3 of
                    Some focuserStatus \<Rightarrow>
                      if TrackState st3 \<noteq> SCOPE_SLEWING then (focuserStatus, st3)
                      else (True, st3)
                  | None \<Rightarrow> (True, st3))"

text \<open>
  Lines 520 to 586: the motor status, read a second time when the first reading fails,
  the park status, and the two steps above. The result is the driver alone when the
  cycle has failed, and the new track state with the driver when it goes on to the
  coordinates.

  The buffer \<open>parkHomeStatus\<close> has one byte (line 534), and \<open>sscanf\<close> stores
  the token and its terminating zero from that byte on (line 1437), so at least one byte
  is written past the buffer. \<open>strcmp\<close> reads the token back from where it was
  stored. What the bytes written past the buffer do to \<open>x\<close> and \<open>y\<close>, the
  locals of \<open>ReadScopeStatus\<close> that are read afterwards, is the parameter
  \<open>overflow\<close>, given the token and the two values; it does not apply when nothing is
  stored, and the buffer is empty as initialised. Any other effect of the write is
  outside this model.
\<close>

definition poll_status ::
  "(driver \<Rightarrow> bool \<Rightarrow> driver) \<Rightarrow> (string \<Rightarrow> int \<times> int \<Rightarrow> int \<times> int) \<Rightarrow> driver \<Rightarrow> int \<Rightarrow>
     driver + TelescopeStatus \<times> driver" where
  "poll_status Telescope_SetParked overflow st tmo =
     (let (motor, st1) = getMotorStatus st tmo;
          (motor, st1) = (if motor = None then getMotorStatus st1 tmo else (motor, st1))
      in case motor of
           None \<Rightarrow> Inl st1
         | Some xy \<Rightarrow>
             (case getParkHomeStatus st1 tmo [] of
                (None, st2) \<Rightarrow> Inl st2
              | (Some parkHomeStatus, st2) \<Rightarrow>
                  let (x, y) = (if parkHomeStatus = [] then xy else overflow parkHomeStatus xy);
                      (newTrackState, st3) =
                        park_motor_evaluation Telescope_SetParked st2 parkHomeStatus x y
                  in Inr (newTrackState, publish_tracking_adjustment st3 tmo)))"

text \<open>
  \<open>ReadScopeStatus\<close>. \<open>mountSim\<close> is the simulator of the base class, a parameter.
\<close>

definition ReadScopeStatus ::
  "(driver \<Rightarrow> driver) \<Rightarrow> (driver \<Rightarrow> bool \<Rightarrow> driver) \<Rightarrow> (string \<Rightarrow> int \<times> int \<Rightarrow> int \<times> int) \<Rightarrow>
     int \<Rightarrow> char \<Rightarrow> driver \<Rightarrow> bool \<times> driver" where
  "ReadScopeStatus mountSim Telescope_SetParked overflow tmo answer0 st =
     (if \<not> connected st then (False, st)
      else if simulation st then (True, mountSim st)
      else case poll_status Telescope_SetParked overflow st tmo of
             Inl st1 \<Rightarrow> (False, st1)
           | Inr (newTrackState, st4) \<Rightarrow> publish_coordinates st4 tmo answer0 newTrackState)"

subsection \<open>Site longitude\<close>

text \<open>
  A \<open>double\<close> argument is represented by the rational number it holds.
  \<open>getSexComponents\<close> belongs to the device framework and is a parameter. The command
  buffer has 32 bytes, so \<open>snprintf\<close> keeps at most 31 characters.
\<close>

definition normalize_longitude :: "rat \<Rightarrow> rat" where
  "normalize_longitude longitude =
     (let l1 = (if longitude > 180 then longitude - 360 else longitude)
      in if l1 < - 180 then 360 + l1 else l1)"

definition longitude_command :: "int \<times> int \<times> int \<Rightarrow> string" where
  "longitude_command dms =
     (case dms of (d, m, s) \<Rightarrow>
        take 31
          (if d < 0 \<or> m < 0 \<or> s < 0 then
             '':Sg'' @ fmt_0d 4 d @ ''*'' @ fmt_0u 2 (word_of_int \<bar>m\<bar>) @ '':''
               @ fmt_0u 2 (word_of_int \<bar>s\<bar>) @ ''#''
           else '':Sg+'' @ fmt_0d 3 d @ ''*'' @ fmt_0d 2 m @ '':'' @ fmt_0d 2 s @ ''#''))"

definition setSiteLongitude ::
  "(rat \<Rightarrow> int \<times> int \<times> int) \<Rightarrow> int \<Rightarrow> driver \<Rightarrow> rat \<Rightarrow> bool \<times> driver" where
  "setSiteLongitude getSexComponents tmo st longitude =
     (let command = longitude_command (getSexComponents (normalize_longitude longitude));
          ((result, response), st1) = sendQuery st command (CHR ''#'') tmo
      in (result, st1))"

subsection \<open>Tracking adjustment\<close>

text \<open>
  The product \<open>adjustRA * 100\<close> of two doubles is the double nearest the exact
  product, a tie going to the even significand (IEEE 754 binary64 in its default rounding
  mode). \<open>round_double\<close> rounds a rational number to 53 significant bits:
  \<open>binade_up\<close> and \<open>binade_down\<close> find the power of two at or below the
  magnitude, \<open>round_half_even\<close> rounds the significand. The exponent is not
  bounded, so overflow and subnormal numbers are not modelled; the product has magnitude
  at most 500 where it is used, and a product below the normal range truncates to 0 with
  or without the bound. \<open>static_cast<int>\<close> of a double drops the fraction.
\<close>

definition round_half_even :: "rat \<Rightarrow> int" where
  "round_half_even y =
     (let f = \<lfloor>y\<rfloor>; r = y - of_int f
      in if r < 1 / 2 then f else if 1 / 2 < r then f + 1 else if even f then f else f + 1)"

function binade_up :: "rat \<Rightarrow> nat" where
  "binade_up a = (if 2 \<le> a then Suc (binade_up (a / 2)) else 0)"
  by pat_completeness auto
termination
proof (relation "measure (\<lambda>a. nat \<lfloor>a\<rfloor>)", goal_cases)
  case 1
  show ?case by simp
next
  case (2 a)
  then have "a / 2 \<le> a - 1" by simp
  then have "\<lfloor>a / 2\<rfloor> \<le> \<lfloor>a - 1\<rfloor>" by (rule floor_mono)
  moreover from 2 have "2 \<le> \<lfloor>a\<rfloor>" by (simp add: le_floor_iff)
  ultimately show ?case by simp
qed

function binade_down :: "rat \<Rightarrow> nat" where
  "binade_down a = (if 0 < a \<and> a < 1 then Suc (binade_down (2 * a)) else 0)"
  by pat_completeness auto
termination
proof (relation "measure (\<lambda>a. nat \<lfloor>1 / a\<rfloor>)", goal_cases)
  case 1
  show ?case by simp
next
  case (2 a)
  then have a: "0 < a" "a < 1" by simp_all
  then have y: "1 < 1 / a" by simp
  then have f1: "1 \<le> \<lfloor>1 / a\<rfloor>" by (simp add: le_floor_iff)
  have "\<lfloor>1 / (2 * a)\<rfloor> < \<lfloor>1 / a\<rfloor>"
  proof (cases "2 \<le> 1 / a")
    case True
    then have "1 / (2 * a) \<le> 1 / a - 1" using a by (simp add: field_simps)
    then have "\<lfloor>1 / (2 * a)\<rfloor> \<le> \<lfloor>1 / a - 1\<rfloor>" by (rule floor_mono)
    then show ?thesis by simp
  next
    case False
    then have "1 / (2 * a) < 1" using a by (simp add: field_simps)
    then have "\<lfloor>1 / (2 * a)\<rfloor> < 1" by (simp add: floor_less_iff)
    with f1 show ?thesis by linarith
  qed
  with f1 show ?case by simp
qed

declare binade_up.simps [simp del] binade_down.simps [simp del]

definition round_double :: "rat \<Rightarrow> rat" where
  "round_double q =
     (if q = 0 then 0
      else
        let a = \<bar>q\<bar>;
            ulp = (if 1 \<le> a then 2 ^ binade_up a / 2 ^ 52
                   else 1 / (2 ^ binade_down a * 2 ^ 52));
            m = round_half_even (a / ulp)
        in (if q < 0 then - (of_int m * ulp) else of_int m * ulp))"

definition trunc_int :: "rat \<Rightarrow> int" where
  "trunc_int q = (if 0 \<le> q then \<lfloor>q\<rfloor> else \<lceil>q\<rceil>)"

definition setTrackingAdjustment :: "driver \<Rightarrow> rat \<Rightarrow> bool \<times> driver" where
  "setTrackingAdjustment st adjustRA =
     (if adjustRA > 5 then (False, st)
      else if adjustRA < - 5 then (False, st)
      else
        let parameter = trunc_int (round_double (adjustRA * 100));
            cmd = '':X41'' @ fmt_plus_0d 4 parameter @ ''#'';
            ((ok, response), st1) = sendQuery st cmd (CHR ''#'') 0
        in if \<not> ok then (False, st1) else (True, st1))"

subsection \<open>Motion, slew mode and guiding\<close>

definition setSlewMode :: "driver \<Rightarrow> TSlew \<Rightarrow> bool \<times> driver" where
  "setSlewMode st slewMode =
     (let cmd = (case slewMode of
                   LX200_SLEW_MAX \<Rightarrow> '':RS#''
                 | LX200_SLEW_FIND \<Rightarrow> '':RM#''
                 | LX200_SLEW_CENTER \<Rightarrow> '':RC#''
                 | LX200_SLEW_GUIDE \<Rightarrow> '':RG#'');
          ((ok, response), st1) = sendQuery st cmd (CHR ''#'') 0
      in if \<not> ok then (False, st1) else (True, st1))"

definition MoveNS :: "driver \<Rightarrow> INDI_DIR_NS \<Rightarrow> TelescopeMotionCommand \<Rightarrow> bool \<times> driver" where
  "MoveNS st dir command =
     (let cmd = '':'' @ (if command = MOTION_START then ''M'' else ''Q'')
                  @ (if dir = DIRECTION_NORTH then ''n'' else ''s'') @ ''#''
      in if simulation st then (True, st)
         else let ((ok, response), st1) = sendQuery st cmd (CHR ''#'') 0
              in if \<not> ok then (False, st1) else (True, st1))"

definition MoveWE :: "driver \<Rightarrow> INDI_DIR_WE \<Rightarrow> TelescopeMotionCommand \<Rightarrow> bool \<times> driver" where
  "MoveWE st dir command =
     (let cmd = '':'' @ (if command = MOTION_START then ''M'' else ''Q'')
                  @ (if dir = DIRECTION_WEST then ''w'' else ''e'') @ ''#''
      in if simulation st then (True, st)
         else let ((ok, response), st1) = sendQuery st cmd (CHR ''#'') 0
              in if \<not> ok then (False, st1) else (True, st1))"

text \<open>
  \<open>SendPulseCmd\<close> returns 1 when the pulse is ignored and otherwise the negated result
  of \<open>sendQuery\<close>.
\<close>

definition SendPulseCmd :: "driver \<Rightarrow> TDirection \<Rightarrow> 32 word \<Rightarrow> int \<times> driver" where
  "SendPulseCmd st direction duration_msec =
     (if TrackState st = SCOPE_SLEWING \<or> TrackState st = SCOPE_PARKING then (1, st)
      else
        let cmd = (case direction of
                     LX200_NORTH \<Rightarrow> '':Mgn'' @ fmt_0u 4 duration_msec @ ''#''
                   | LX200_SOUTH \<Rightarrow> '':Mgs'' @ fmt_0u 4 duration_msec @ ''#''
                   | LX200_EAST \<Rightarrow> '':Mge'' @ fmt_0u 4 duration_msec @ ''#''
                   | LX200_WEST \<Rightarrow> '':Mgw'' @ fmt_0u 4 duration_msec @ ''#'');
            ((ok, response), st1) = sendQuery st cmd (CHR ''#'') 0
        in ((if \<not> ok then 1 else 0), st1))"

text \<open>
  The switch and timer services of the framework: the index of the first switch that is
  on (or -1), a timer registered under a fresh identifier, a timer removed.
\<close>

fun IUFindOnSwitchIndex :: "bool list \<Rightarrow> int" where
  "IUFindOnSwitchIndex [] = - 1"
| "IUFindOnSwitchIndex (b # bs) =
     (if b then 0
      else let i = IUFindOnSwitchIndex bs in if i < 0 then - 1 else i + 1)"

definition IEAddTimer :: "driver \<Rightarrow> int \<Rightarrow> guide_axis \<Rightarrow> int \<times> driver" where
  "IEAddTimer st ms axis =
     (let tid = 1 + foldr max (map fst (timers st)) 0
      in (tid, st\<lparr>timers := timers st @ [(tid, ms, axis)]\<rparr>))"

definition IERmTimer :: "driver \<Rightarrow> int \<Rightarrow> driver" where
  "IERmTimer st tid = st\<lparr>timers := filter (\<lambda>t. fst t \<noteq> tid) (timers st)\<rparr>"

text \<open>
  \<open>GuideNorth\<close> and \<open>GuideSouth\<close> differ in the direction only, and so do
  \<open>GuideEast\<close> and \<open>GuideWest\<close>; \<open>DIRECTION_NORTH\<close> and \<open>DIRECTION_WEST\<close> are
  index 0 of their switch vectors, \<open>SLEW_GUIDE\<close> is index 0 of the slew rates.
\<close>

definition index_NS :: "INDI_DIR_NS \<Rightarrow> nat" where
  "index_NS dir = (case dir of DIRECTION_NORTH \<Rightarrow> 0 | DIRECTION_SOUTH \<Rightarrow> 1)"

definition index_WE :: "INDI_DIR_WE \<Rightarrow> nat" where
  "index_WE dir = (case dir of DIRECTION_WEST \<Rightarrow> 0 | DIRECTION_EAST \<Rightarrow> 1)"

definition slew_to_guiding :: "driver \<Rightarrow> driver" where
  "slew_to_guiding st =
     st\<lparr>SlewRateS := (map (\<lambda>_. False) (SlewRateS st))[0 := True]\<rparr>"

definition guide_NS :: "TDirection \<Rightarrow> INDI_DIR_NS \<Rightarrow> driver \<Rightarrow> 32 word \<Rightarrow> IPState \<times> driver" where
  "guide_NS lx_dir dir st ms =
     (if usePulseCommand st \<and> (MovementNSSP_s st = IPS_BUSY \<or> MovementWESP_s st = IPS_BUSY)
      then (IPS_ALERT, st)
      else
        let st1 = (if MovementNSSP_s st = IPS_BUSY then
                     snd (MoveNS st (if IUFindOnSwitchIndex (MovementNSS st) = 0
                                     then DIRECTION_NORTH else DIRECTION_SOUTH) MOTION_STOP)
                   else st);
            st2 = (if GuideNSTID st1 \<noteq> 0 then (IERmTimer st1 (GuideNSTID st1))\<lparr>GuideNSTID := 0\<rparr>
                   else st1);
            (proceed, st3) =
              (if usePulseCommand st2 then (True, snd (SendPulseCmd st2 lx_dir ms))
               else case setSlewMode st2 LX200_SLEW_GUIDE of
                      (False, st') \<Rightarrow> (False, st'\<lparr>SlewRateSP_s := IPS_ALERT\<rparr>)
                    | (True, st') \<Rightarrow>
                        (True, snd (MoveNS (st'\<lparr>MovementNSS := (MovementNSS st')[index_NS dir := True]\<rparr>)
                                      dir MOTION_START)))
        in if \<not> proceed then (IPS_ALERT, st3)
           else let st4 = (slew_to_guiding st3)\<lparr>guide_direction_ns := lx_dir\<rparr>;
                    (tid, st5) = IEAddTimer st4 (sint ms) AxisNS
                in (IPS_BUSY, st5\<lparr>GuideNSTID := tid\<rparr>))"

definition guide_WE :: "TDirection \<Rightarrow> INDI_DIR_WE \<Rightarrow> driver \<Rightarrow> 32 word \<Rightarrow> IPState \<times> driver" where
  "guide_WE lx_dir dir st ms =
     (if usePulseCommand st \<and> (MovementNSSP_s st = IPS_BUSY \<or> MovementWESP_s st = IPS_BUSY)
      then (IPS_ALERT, st)
      else
        let st1 = (if MovementWESP_s st = IPS_BUSY then
                     snd (MoveWE st (if IUFindOnSwitchIndex (MovementWES st) = 0
                                     then DIRECTION_WEST else DIRECTION_EAST) MOTION_STOP)
                   else st);
            st2 = (if GuideWETID st1 \<noteq> 0 then (IERmTimer st1 (GuideWETID st1))\<lparr>GuideWETID := 0\<rparr>
                   else st1);
            (proceed, st3) =
              (if usePulseCommand st2 then (True, snd (SendPulseCmd st2 lx_dir ms))
               else case setSlewMode st2 LX200_SLEW_GUIDE of
                      (False, st') \<Rightarrow> (False, st'\<lparr>SlewRateSP_s := IPS_ALERT\<rparr>)
                    | (True, st') \<Rightarrow>
                        (True, snd (MoveWE (st'\<lparr>MovementWES := (MovementWES st')[index_WE dir := True]\<rparr>)
                                      dir MOTION_START)))
        in if \<not> proceed then (IPS_ALERT, st3)
           else let st4 = (slew_to_guiding st3)\<lparr>guide_direction_we := lx_dir\<rparr>;
                    (tid, st5) = IEAddTimer st4 (sint ms) AxisWE
                in (IPS_BUSY, st5\<lparr>GuideWETID := tid\<rparr>))"

definition GuideNorth :: "driver \<Rightarrow> 32 word \<Rightarrow> IPState \<times> driver" where
  "GuideNorth st ms = guide_NS LX200_NORTH DIRECTION_NORTH st ms"

definition GuideSouth :: "driver \<Rightarrow> 32 word \<Rightarrow> IPState \<times> driver" where
  "GuideSouth st ms = guide_NS LX200_SOUTH DIRECTION_SOUTH st ms"

definition GuideEast :: "driver \<Rightarrow> 32 word \<Rightarrow> IPState \<times> driver" where
  "GuideEast st ms = guide_WE LX200_EAST DIRECTION_EAST st ms"

definition GuideWest :: "driver \<Rightarrow> 32 word \<Rightarrow> IPState \<times> driver" where
  "GuideWest st ms = guide_WE LX200_WEST DIRECTION_WEST st ms"

subsection \<open>Telegram frames and example states\<close>

text \<open>A frame is a telegram when \<open>ParseMotionState\<close> accepts it.\<close>

definition is_telegram :: "string \<Rightarrow> bool" where
  "is_telegram frame \<longleftrightarrow> fst (sscanf frame fmt_Z1) = 3"

text \<open>
  The driver after \<open>ParseMotionState\<close> has been given the listed frames of the line,
  each once and in order.
\<close>

definition apply_frames :: "driver \<Rightarrow> (int \<times> string) list \<Rightarrow> driver" where
  "apply_frames st frames =
     foldl (\<lambda>s x. snd (ParseMotionState s (strip_hash (snd x)))) st frames"

text \<open>
  What the poll cycle publishes about the position of the mount: the track state, the
  coordinates and the pier side.
\<close>

definition published_position ::
  "driver \<Rightarrow> TelescopeStatus \<times> rat \<times> rat \<times> (rat \<times> rat) \<times> TelescopePierSide" where
  "published_position st =
     (TrackState st, currentRA st, currentDEC st, EqN st, currentPierSide st)"

text \<open>
  A driver that differs from another at most in what \<open>sendQuery\<close> writes: the port,
  the three variables set from telegrams and the count of quiet periods.
\<close>

definition queries_only :: "driver \<Rightarrow> driver \<Rightarrow> bool" where
  "queries_only st s =
     (s = st\<lparr>PortFD := PortFD s, CurrentMotorsState := CurrentMotorsState s,
              CurrentTrackMode := CurrentTrackMode s, CurrentSlewRate := CurrentSlewRate s,
              delays := delays s\<rparr>)"

text \<open>A connected driver that is idle, with an empty line.\<close>

definition idle_port :: port where
  "idle_port = \<lparr>rx = [], tx_limit = None, tx = [], reads = []\<rparr>"

definition idle_driver :: driver where
  "idle_driver =
     \<lparr>PortFD = idle_port, connected = True, simulation = False,
      CurrentMotorsState = MOTORS_OFF, CurrentTrackMode = TRACK_SIDEREAL,
      CurrentSlewRate = SLEW_MAX, TrackState = SCOPE_IDLE, IsParked = False,
      TrackingAdjustment_value = 0, TrackingAdjustmentNP_s = IPS_IDLE,
      currentRA = 0, currentDEC = 0, EqN = (0, 0), currentPierSide = PIER_UNKNOWN,
      MountGotoHomeSP_s = IPS_IDLE,
      MovementNSSP_s = IPS_IDLE, MovementNSS = [False, False],
      MovementWESP_s = IPS_IDLE, MovementWES = [False, False],
      SlewRateSP_s = IPS_IDLE, SlewRateS = [False, False, False, True],
      usePulseCommand = True, GuideNSTID = 0, GuideWETID = 0,
      guide_direction_ns = LX200_NORTH, guide_direction_we = LX200_WEST,
      timers = [], delays = 0, focuserAux1 = None\<rparr>"

text \<open>The same driver with the given frames on the line.\<close>

definition with_line :: "(int \<times> string) list \<Rightarrow> driver" where
  "with_line frames = idle_driver\<lparr>PortFD := idle_port\<lparr>rx := frames\<rparr>\<rparr>"

section \<open>Properties\<close>

subsection \<open>Writable ports\<close>

lemma writable_rx [simp]: "writable (p\<lparr>rx := r\<rparr>) = writable p"
  by (simp add: writable_def split: option.splits)

lemma writable_reads [simp]: "writable (p\<lparr>reads := r\<rparr>) = writable p"
  by (simp add: writable_def split: option.splits)

lemma writable_unlimited [simp]: "tx_limit p = None \<Longrightarrow> writable p"
  by (simp add: writable_def)

subsection \<open>Digits and single conversions\<close>

lemma of_char_digit_char: "n < 10 \<Longrightarrow> (of_char (digit_char n) :: nat) = 48 + n"
  by (simp add: digit_char_def)

lemma digit_char_numerals:
  "digit_char 0 = CHR ''0''" "digit_char 1 = CHR ''1''" "digit_char 2 = CHR ''2''"
  "digit_char 3 = CHR ''3''" "digit_char 4 = CHR ''4''" "digit_char 5 = CHR ''5''"
  "digit_char 6 = CHR ''6''" "digit_char 7 = CHR ''7''" "digit_char 8 = CHR ''8''"
  "digit_char 9 = CHR ''9''" "digit_char (Suc 0) = CHR ''1''"
  by code_simp+

lemma isdigit_digit_char: "n < 10 \<Longrightarrow> isdigit_c (digit_char n)"
  by (simp add: isdigit_c_def of_char_digit_char)

lemma digit_val_digit_char: "n < 10 \<Longrightarrow> digit_val (digit_char n) = n"
  by (simp add: digit_val_def of_char_digit_char)

lemma isdigit_not_space: "isdigit_c c \<Longrightarrow> \<not> isspace_c c"
  by (auto simp: isdigit_c_def isspace_c_def)

lemma isdigit_not_sign:
  "isdigit_c c \<Longrightarrow> c \<noteq> CHR ''-'' \<and> c \<noteq> CHR ''+'' \<and> c \<noteq> CHR ''.''"
  by (auto simp: isdigit_c_def)

lemma scan_int_one_digit:
  "isdigit_c c \<Longrightarrow> scan_int (Suc 0) (c # r) = Some (int (digit_val c), r)"
  by (simp add: scan_int_def scan_sign_def isdigit_not_sign dec_val_def)

lemma skip_ws_digit: "isdigit_c c \<Longrightarrow> skip_ws (c # r) = c # r"
  by (simp add: skip_ws_def isdigit_not_space)

subsection \<open>Telegrams\<close>

lemma sscanf_Z1_digits:
  assumes "isdigit_c a" "isdigit_c b" "isdigit_c c"
  shows "sscanf ('':Z1'' @ a # b # c # rest) fmt_Z1 =
           (3, [IntV (int (digit_val a)), IntV (int (digit_val b)), IntV (int (digit_val c))])"
  using assms by (simp add: sscanf_def fmt_Z1_def skip_ws_digit scan_int_one_digit)

lemma ParseMotionState_digits:
  assumes "isdigit_c a" "isdigit_c b" "isdigit_c c"
  shows "ParseMotionState st ('':Z1'' @ a # b # c # rest) =
     (True, st\<lparr>CurrentMotorsState := motors_of (int (digit_val a)) (CurrentMotorsState st),
               CurrentTrackMode := track_mode_of (int (digit_val b)) (CurrentTrackMode st),
               CurrentSlewRate := slew_rate_of (int (digit_val c)) (CurrentSlewRate st)\<rparr>)"
  using sscanf_Z1_digits [OF assms, of rest] by (simp add: ParseMotionState_def)

text \<open>
  C8. A telegram \<open>:Z1mts\<close> with its three fields in the range 0 to 3 is accepted, and
  each of the three state variables is set from its own field alone: the motor state
  from \<open>m\<close>, the slew rate from \<open>s\<close>, and the tracking mode from \<open>t\<close> when \<open>t\<close>
  is 1, 2 or 3 (lunar, solar, sidereal), while \<open>t = 0\<close> leaves the stored tracking mode
  as it was, the motor and slew fields being applied all the same. Nothing else in the
  driver changes.
\<close>

theorem ParseMotionState_fields:
  assumes "m \<le> 3" and "t \<le> 3" and "s \<le> 3"
  shows "ParseMotionState st ('':Z1'' @ [digit_char m, digit_char t, digit_char s] @ rest) =
     (True,
      st\<lparr>CurrentMotorsState := [MOTORS_OFF, MOTORS_DEC_ONLY, MOTORS_RA_ONLY, MOTORS_ON] ! m,
         CurrentTrackMode :=
           (if t = 0 then CurrentTrackMode st
            else [TRACK_LUNAR, TRACK_SOLAR, TRACK_SIDEREAL] ! (t - 1)),
         CurrentSlewRate := [SLEW_GUIDE, SLEW_CENTERING, SLEW_FIND, SLEW_MAX] ! s\<rparr>)"
proof -
  have m: "m = 0 \<or> m = 1 \<or> m = 2 \<or> m = 3" using assms(1) by auto
  have t: "t = 0 \<or> t = 1 \<or> t = 2 \<or> t = 3" using assms(2) by auto
  have s: "s = 0 \<or> s = 1 \<or> s = 2 \<or> s = 3" using assms(3) by auto
  have d: "isdigit_c (digit_char m)" "isdigit_c (digit_char t)" "isdigit_c (digit_char s)"
    using assms by (simp_all add: isdigit_digit_char)
  have v: "digit_val (digit_char m) = m" "digit_val (digit_char t) = t"
    "digit_val (digit_char s) = s"
    using assms by (simp_all add: digit_val_digit_char)
  have mm: "motors_of (int m) (CurrentMotorsState st) =
      [MOTORS_OFF, MOTORS_DEC_ONLY, MOTORS_RA_ONLY, MOTORS_ON] ! m"
    using m by (auto simp: motors_of_def)
  have tt: "track_mode_of (int t) (CurrentTrackMode st) =
      (if t = 0 then CurrentTrackMode st
       else [TRACK_LUNAR, TRACK_SOLAR, TRACK_SIDEREAL] ! (t - 1))"
    using t by (auto simp: track_mode_of_def)
  have ss: "slew_rate_of (int s) (CurrentSlewRate st) =
      [SLEW_GUIDE, SLEW_CENTERING, SLEW_FIND, SLEW_MAX] ! s"
    using s by (auto simp: slew_rate_of_def)
  show ?thesis
    using ParseMotionState_digits [OF d, of st rest] by (simp add: v mm tt ss)
qed

theorem ParseMotionState_fields_witness:
  "(3::nat) \<le> 3 \<and> (0::nat) \<le> 3 \<and> (2::nat) \<le> 3 \<and>
   ParseMotionState (idle_driver\<lparr>CurrentTrackMode := TRACK_SOLAR\<rparr>) '':Z1302'' =
     (True, idle_driver\<lparr>CurrentTrackMode := TRACK_SOLAR, CurrentMotorsState := MOTORS_ON,
                        CurrentSlewRate := SLEW_FIND\<rparr>)"
  using ParseMotionState_fields [of 3 0 2 "idle_driver\<lparr>CurrentTrackMode := TRACK_SOLAR\<rparr>" "[]"]
  by (simp add: digit_char_numerals idle_driver_def)

subsection \<open>Guiding\<close>

text \<open>
  C9. For each of the four guide directions: when the pulse command is in use and the
  N/S or the W/E movement property is busy, the guide request returns the alert state
  and leaves the driver as it was; in particular nothing is written to the port.
\<close>

theorem guide_rejected_while_moving:
  assumes "usePulseCommand st"
    and "MovementNSSP_s st = IPS_BUSY \<or> MovementWESP_s st = IPS_BUSY"
  shows "GuideNorth st ms = (IPS_ALERT, st) \<and> GuideSouth st ms = (IPS_ALERT, st) \<and>
         GuideEast st ms = (IPS_ALERT, st) \<and> GuideWest st ms = (IPS_ALERT, st)"
  using assms
  by (simp add: GuideNorth_def GuideSouth_def GuideEast_def GuideWest_def
                guide_NS_def guide_WE_def)

theorem guide_rejected_while_moving_witness:
  "usePulseCommand (idle_driver\<lparr>MovementWESP_s := IPS_BUSY\<rparr>) \<and>
   (MovementNSSP_s (idle_driver\<lparr>MovementWESP_s := IPS_BUSY\<rparr>) = IPS_BUSY \<or>
    MovementWESP_s (idle_driver\<lparr>MovementWESP_s := IPS_BUSY\<rparr>) = IPS_BUSY) \<and>
   GuideNorth (idle_driver\<lparr>MovementWESP_s := IPS_BUSY\<rparr>) 250 =
     (IPS_ALERT, idle_driver\<lparr>MovementWESP_s := IPS_BUSY\<rparr>) \<and>
   GuideSouth (idle_driver\<lparr>MovementWESP_s := IPS_BUSY\<rparr>) 250 =
     (IPS_ALERT, idle_driver\<lparr>MovementWESP_s := IPS_BUSY\<rparr>) \<and>
   GuideEast (idle_driver\<lparr>MovementWESP_s := IPS_BUSY\<rparr>) 250 =
     (IPS_ALERT, idle_driver\<lparr>MovementWESP_s := IPS_BUSY\<rparr>) \<and>
   GuideWest (idle_driver\<lparr>MovementWESP_s := IPS_BUSY\<rparr>) 250 =
     (IPS_ALERT, idle_driver\<lparr>MovementWESP_s := IPS_BUSY\<rparr>)"
  using guide_rejected_while_moving [of "idle_driver\<lparr>MovementWESP_s := IPS_BUSY\<rparr>" 250]
  by (simp add: idle_driver_def)

subsection \<open>Reading the line\<close>

lemma ParseMotionState_PortFD: "PortFD (snd (ParseMotionState st l)) = PortFD st"
  by (auto simp: ParseMotionState_def split: prod.splits list.splits sval.splits)

lemma ParseMotionState_telegram: "fst (ParseMotionState st l) = is_telegram l"
  by (auto simp: ParseMotionState_def is_telegram_def sscanf_def fmt_Z1_def
                 input_failure_def matching_failure_def
           split: prod.splits list.splits sval.splits option.splits if_splits)

lemma ParseMotionState_other: "\<not> is_telegram l \<Longrightarrow> ParseMotionState st l = (False, st)"
  by (auto simp: ParseMotionState_def is_telegram_def
           split: prod.splits list.splits sval.splits)

lemma ParseMotionState_cases:
  "ParseMotionState st l = (False, st) \<or>
   (\<exists>a b c. ParseMotionState st l =
      (True, st\<lparr>CurrentMotorsState := motors_of a (CurrentMotorsState st),
                CurrentTrackMode := track_mode_of b (CurrentTrackMode st),
                CurrentSlewRate := slew_rate_of c (CurrentSlewRate st)\<rparr>))"
  by (auto simp: ParseMotionState_def split: prod.splits list.splits sval.splits)

lemma ParseMotionState_changes:
  "\<exists>m t s. snd (ParseMotionState st l) =
     st\<lparr>CurrentMotorsState := m, CurrentTrackMode := t, CurrentSlewRate := s\<rparr>"
proof -
  have "st = st\<lparr>CurrentMotorsState := CurrentMotorsState st,
                CurrentTrackMode := CurrentTrackMode st,
                CurrentSlewRate := CurrentSlewRate st\<rparr>"
    by simp
  with ParseMotionState_cases [of st l] show ?thesis
    by (metis snd_conv)
qed

lemma receive_empty:
  "rx (PortFD st) = [] \<Longrightarrow>
   receive st e w = (None, st\<lparr>PortFD := (PortFD st)\<lparr>reads := reads (PortFD st) @ [(e, w)]\<rparr>\<rparr>)"
  by (simp add: receive_def tty_read_section_def)

lemma receive_late:
  "rx (PortFD st) = (d, b) # rest \<Longrightarrow> \<not> d \<le> w \<Longrightarrow>
   receive st e w = (None, st\<lparr>PortFD := (PortFD st)\<lparr>reads := reads (PortFD st) @ [(e, w)]\<rparr>\<rparr>)"
  by (simp add: receive_def tty_read_section_def)

lemma receive_frame:
  "rx (PortFD st) = (d, b) # rest \<Longrightarrow> d \<le> w \<Longrightarrow>
   receive st e w =
     (Some (strip_hash b),
      st\<lparr>PortFD := (PortFD st)\<lparr>reads := reads (PortFD st) @ [(e, w)], rx := rest\<rparr>\<rparr>)"
  by (simp add: receive_def tty_read_section_def)

lemma apply_frames_Nil: "apply_frames st [] = st"
  by (simp add: apply_frames_def)

lemma apply_frames_Cons:
  "apply_frames st (x # xs) = apply_frames (snd (ParseMotionState st (strip_hash (snd x)))) xs"
  by (simp add: apply_frames_def)

lemma apply_frames_append:
  "apply_frames st (xs @ ys) = apply_frames (apply_frames st xs) ys"
  by (simp add: apply_frames_def)

lemma apply_frames_PortFD: "PortFD (apply_frames st xs) = PortFD st"
  by (induction xs arbitrary: st) (simp_all add: apply_frames_Nil apply_frames_Cons ParseMotionState_PortFD)

lemma ParseMotionState_port_update:
  "snd (ParseMotionState (st\<lparr>PortFD := p\<rparr>) l) = (snd (ParseMotionState st l))\<lparr>PortFD := p\<rparr>"
  by (auto simp: ParseMotionState_def split: prod.splits list.splits sval.splits)

lemma apply_frames_port_update:
  "apply_frames (st\<lparr>PortFD := p\<rparr>) xs = (apply_frames st xs)\<lparr>PortFD := p\<rparr>"
  by (induction xs arbitrary: st)
     (simp_all add: apply_frames_Nil apply_frames_Cons ParseMotionState_port_update)

lemma apply_frames_skip:
  "apply_frames st (filter (\<lambda>x. is_telegram (strip_hash (snd x))) xs) = apply_frames st xs"
  by (induction xs arbitrary: st)
     (simp_all add: apply_frames_Nil apply_frames_Cons ParseMotionState_other)

subsection \<open>The two loops of the query engine\<close>

declare drain_loop.simps [simp del] reply_loop.simps [simp del]

lemma drain_loop_step:
  "rx (PortFD st) = (d, b) # rest \<Longrightarrow> d \<le> 0 \<Longrightarrow>
   drain_loop st =
     drain_loop (snd (ParseMotionState
       (st\<lparr>PortFD := (PortFD st)\<lparr>reads := reads (PortFD st) @ [(CHR ''#'', 0)], rx := rest\<rparr>\<rparr>)
       (strip_hash b)))"
  by (subst drain_loop.simps) (simp add: receive_frame)

lemma drain_loop_stop:
  "rx (PortFD st) = later \<Longrightarrow> later = [] \<or> 0 < fst (hd later) \<Longrightarrow>
   drain_loop st =
     st\<lparr>PortFD := (PortFD st)\<lparr>reads := reads (PortFD st) @ [(CHR ''#'', 0)]\<rparr>\<rparr>"
proof (cases later)
  case Nil
  assume "rx (PortFD st) = later"
  with Nil show ?thesis
    by (subst drain_loop.simps) (simp add: receive_empty)
next
  case (Cons x xs)
  assume r: "rx (PortFD st) = later" and l: "later = [] \<or> 0 < fst (hd later)"
  obtain d b where x: "x = (d, b)" by (cases x)
  from l Cons x have "\<not> d \<le> 0" by simp
  with r Cons x show ?thesis
    by (subst drain_loop.simps) (simp add: receive_late)
qed

lemma drain_loop_available:
  assumes "rx (PortFD st) = avail @ later"
    and "\<forall>x\<in>set avail. fst x \<le> 0"
    and "later = [] \<or> 0 < fst (hd later)"
  shows "drain_loop st =
     (apply_frames st avail)
       \<lparr>PortFD := (PortFD st)
          \<lparr>rx := later,
           reads := reads (PortFD st) @ replicate (Suc (length avail)) (CHR ''#'', 0)\<rparr>\<rparr>"
  using assms
proof (induction avail arbitrary: st)
  case Nil
  then have "rx (PortFD st) = later" by simp
  from drain_loop_stop [OF this Nil(3)] Nil(1) show ?case
    by (simp add: apply_frames_Nil)
next
  case (Cons x avail)
  obtain d b where x: "x = (d, b)" by (cases x)
  let ?p = "(PortFD st)\<lparr>reads := reads (PortFD st) @ [(CHR ''#'', 0)], rx := avail @ later\<rparr>"
  let ?st1 = "snd (ParseMotionState (st\<lparr>PortFD := ?p\<rparr>) (strip_hash b))"
  from Cons.prems x have d: "d \<le> 0" and rx: "rx (PortFD st) = (d, b) # (avail @ later)"
    by simp_all
  have step: "drain_loop st = drain_loop ?st1"
    using drain_loop_step [OF rx d] .
  have port: "PortFD ?st1 = ?p"
    by (simp add: ParseMotionState_PortFD)
  then have rx1: "rx (PortFD ?st1) = avail @ later" by simp
  from Cons.prems have av: "\<forall>x\<in>set avail. fst x \<le> 0" by simp
  have st1: "?st1 = (snd (ParseMotionState st (strip_hash b)))\<lparr>PortFD := ?p\<rparr>"
    by (rule ParseMotionState_port_update)
  have "drain_loop ?st1 =
     (apply_frames ?st1 avail)
       \<lparr>PortFD := (PortFD ?st1)
          \<lparr>rx := later,
           reads := reads (PortFD ?st1) @ replicate (Suc (length avail)) (CHR ''#'', 0)\<rparr>\<rparr>"
    by (rule Cons.IH [OF rx1 av Cons.prems(3)])
  also have "\<dots> =
     (apply_frames st (x # avail))
       \<lparr>PortFD := (PortFD st)
          \<lparr>rx := later,
           reads := reads (PortFD st) @ replicate (Suc (length (x # avail))) (CHR ''#'', 0)\<rparr>\<rparr>"
    unfolding port
    by (simp add: st1 x apply_frames_Cons apply_frames_port_update)
  finally show ?case using step by simp
qed

lemma reply_loop_telegram_step:
  assumes "rx (PortFD st) = (d, b) # rest" and "d \<le> w" and "is_telegram (strip_hash b)"
  shows "reply_loop st e w found r =
     reply_loop (snd (ParseMotionState
       (st\<lparr>PortFD := (PortFD st)\<lparr>reads := reads (PortFD st) @ [(e, w)], rx := rest\<rparr>\<rparr>)
       (strip_hash b))) e w found r"
proof -
  let ?st1 = "st\<lparr>PortFD := (PortFD st)\<lparr>reads := reads (PortFD st) @ [(e, w)], rx := rest\<rparr>\<rparr>"
  obtain st2 where p: "ParseMotionState ?st1 (strip_hash b) = (True, st2)"
    using ParseMotionState_telegram [of ?st1 "strip_hash b"] assms(3)
    by (cases "ParseMotionState ?st1 (strip_hash b)") simp
  show ?thesis
    by (subst reply_loop.simps) (simp add: receive_frame [OF assms(1,2)] p)
qed

lemma reply_loop_reply_step:
  "rx (PortFD st) = (d, b) # rest \<Longrightarrow> d \<le> w \<Longrightarrow> \<not> is_telegram (strip_hash b) \<Longrightarrow>
   reply_loop st e w found r =
     reply_loop (st\<lparr>PortFD := (PortFD st)\<lparr>reads := reads (PortFD st) @ [(e, w)], rx := rest\<rparr>\<rparr>)
       e 0 True (if \<not> found then strip_hash b else r)"
  by (subst reply_loop.simps) (simp add: receive_frame ParseMotionState_other)

lemma reply_loop_stop:
  "rx (PortFD st) = later \<Longrightarrow> later = [] \<or> w < fst (hd later) \<Longrightarrow>
   reply_loop st e w found r =
     (r, st\<lparr>PortFD := (PortFD st)\<lparr>reads := reads (PortFD st) @ [(e, w)]\<rparr>\<rparr>)"
proof (cases later)
  case Nil
  assume "rx (PortFD st) = later"
  with Nil show ?thesis
    by (subst reply_loop.simps) (simp add: receive_empty)
next
  case (Cons x xs)
  assume r: "rx (PortFD st) = later" and l: "later = [] \<or> w < fst (hd later)"
  obtain d b where x: "x = (d, b)" by (cases x)
  from l Cons x have "\<not> d \<le> w" by simp
  with r Cons x show ?thesis
    by (subst reply_loop.simps) (simp add: receive_late)
qed

lemma port_rx_same: "rx p = l \<Longrightarrow> p\<lparr>rx := l\<rparr> = p"
  by auto

lemma reply_loop_telegrams:
  assumes "rx (PortFD st) = tels @ later"
    and "\<forall>x\<in>set tels. fst x \<le> w \<and> is_telegram (strip_hash (snd x))"
  shows "reply_loop st e w found r =
     reply_loop
       ((apply_frames st tels)
          \<lparr>PortFD := (PortFD st)
             \<lparr>rx := later, reads := reads (PortFD st) @ replicate (length tels) (e, w)\<rparr>\<rparr>)
       e w found r"
  using assms
proof (induction tels arbitrary: st)
  case Nil
  then show ?case by (simp add: apply_frames_Nil port_rx_same)
next
  case (Cons x tels)
  obtain d b where x: "x = (d, b)" by (cases x)
  let ?p = "(PortFD st)\<lparr>reads := reads (PortFD st) @ [(e, w)], rx := tels @ later\<rparr>"
  let ?st1 = "snd (ParseMotionState (st\<lparr>PortFD := ?p\<rparr>) (strip_hash b))"
  from Cons.prems x have rx: "rx (PortFD st) = (d, b) # (tels @ later)" and d: "d \<le> w"
    and t: "is_telegram (strip_hash b)"
    by simp_all
  have step: "reply_loop st e w found r = reply_loop ?st1 e w found r"
    using reply_loop_telegram_step [OF rx d t] .
  have port: "PortFD ?st1 = ?p"
    by (simp add: ParseMotionState_PortFD)
  then have rx1: "rx (PortFD ?st1) = tels @ later" by simp
  from Cons.prems have ts: "\<forall>x\<in>set tels. fst x \<le> w \<and> is_telegram (strip_hash (snd x))"
    by simp
  have st1: "?st1 = (snd (ParseMotionState st (strip_hash b)))\<lparr>PortFD := ?p\<rparr>"
    by (rule ParseMotionState_port_update)
  have eq: "(apply_frames ?st1 tels)
       \<lparr>PortFD := (PortFD ?st1)
          \<lparr>rx := later, reads := reads (PortFD ?st1) @ replicate (length tels) (e, w)\<rparr>\<rparr> =
     (apply_frames st (x # tels))
       \<lparr>PortFD := (PortFD st)
          \<lparr>rx := later, reads := reads (PortFD st) @ replicate (length (x # tels)) (e, w)\<rparr>\<rparr>"
    unfolding port
    by (simp add: st1 x apply_frames_Cons apply_frames_port_update)
  show ?case
    using step Cons.IH [OF rx1 ts] eq by simp
qed

lemma reply_loop_found:
  assumes "rx (PortFD st) = rest"
  shows "reply_loop st e 0 True r =
     (r, (apply_frames st (takeWhile (\<lambda>x. fst x \<le> 0) rest))
           \<lparr>PortFD := (PortFD st)
              \<lparr>rx := dropWhile (\<lambda>x. fst x \<le> 0) rest,
               reads := reads (PortFD st)
                 @ replicate (Suc (length (takeWhile (\<lambda>x. fst x \<le> 0) rest))) (e, 0)\<rparr>\<rparr>)"
  using assms
proof (induction rest arbitrary: st)
  case Nil
  from reply_loop_stop [OF Nil, of 0 e True r] Nil show ?case
    by (simp add: apply_frames_Nil)
next
  case (Cons x rest)
  obtain d b where x: "x = (d, b)" by (cases x)
  show ?case
  proof (cases "d \<le> 0")
    case False
    with x have "x # rest = [] \<or> 0 < fst (hd (x # rest))" by simp
    from reply_loop_stop [OF Cons.prems this, of e True r] False x Cons.prems show ?thesis
      by (simp add: apply_frames_Nil)
  next
    case True
    let ?p = "(PortFD st)\<lparr>reads := reads (PortFD st) @ [(e, 0)], rx := rest\<rparr>"
    let ?st1 = "snd (ParseMotionState (st\<lparr>PortFD := ?p\<rparr>) (strip_hash b))"
    from Cons.prems x have rx: "rx (PortFD st) = (d, b) # rest" by simp
    have step: "reply_loop st e 0 True r = reply_loop ?st1 e 0 True r"
    proof (cases "is_telegram (strip_hash b)")
      case True
      then show ?thesis using reply_loop_telegram_step [OF rx \<open>d \<le> 0\<close>] by simp
    next
      case False
      then show ?thesis
        using reply_loop_reply_step [OF rx \<open>d \<le> 0\<close> False, of e True r]
        by (simp add: ParseMotionState_other)
    qed
    have port: "PortFD ?st1 = ?p"
      by (simp add: ParseMotionState_PortFD)
    then have rx1: "rx (PortFD ?st1) = rest" by simp
    have st1: "?st1 = (snd (ParseMotionState st (strip_hash b)))\<lparr>PortFD := ?p\<rparr>"
      by (rule ParseMotionState_port_update)
    have eq: "(apply_frames ?st1 (takeWhile (\<lambda>x. fst x \<le> 0) rest))
           \<lparr>PortFD := (PortFD ?st1)
              \<lparr>rx := dropWhile (\<lambda>x. fst x \<le> 0) rest,
               reads := reads (PortFD ?st1)
                 @ replicate (Suc (length (takeWhile (\<lambda>x. fst x \<le> 0) rest))) (e, 0)\<rparr>\<rparr> =
        (apply_frames st (takeWhile (\<lambda>x. fst x \<le> 0) (x # rest)))
           \<lparr>PortFD := (PortFD st)
              \<lparr>rx := dropWhile (\<lambda>x. fst x \<le> 0) (x # rest),
               reads := reads (PortFD st)
                 @ replicate (Suc (length (takeWhile (\<lambda>x. fst x \<le> 0) (x # rest)))) (e, 0)\<rparr>\<rparr>"
      unfolding port using True
      by (simp add: st1 x apply_frames_Cons apply_frames_port_update)
    show ?thesis
      using step Cons.IH [OF rx1] eq by simp
  qed
qed

subsection \<open>The query engine as a whole\<close>

lemma transmit_writable:
  "writable (PortFD st) \<Longrightarrow>
   transmit st cmd = (True, st\<lparr>PortFD := (PortFD st)\<lparr>tx := tx (PortFD st) @ [cmd]\<rparr>\<rparr>)"
  by (simp add: transmit_def tty_write_string_def flush_def)

lemma ParseMotionState_delays: "delays (snd (ParseMotionState st l)) = delays st"
  using ParseMotionState_cases [of st l] by auto

lemma apply_frames_delays: "delays (apply_frames st xs) = delays st"
  by (induction xs arbitrary: st)
     (simp_all add: apply_frames_Nil apply_frames_Cons ParseMotionState_delays)

lemma sendQuery_reply_phase:
  assumes "writable (PortFD st)"
    and "rx (PortFD st) = later" and "later = [] \<or> 0 < fst (hd later)"
  shows "sendQuery st cmd e wait =
     (let (response, st3) =
            reply_loop
              (st\<lparr>PortFD := (PortFD st)\<lparr>reads := reads (PortFD st) @ [(CHR ''#'', 0)],
                                          tx := tx (PortFD st) @ [cmd]\<rparr>\<rparr>)
              e wait False []
      in ((True, response), st3\<lparr>delays := Suc (delays st3)\<rparr>))"
  using assms(1)
  by (simp add: sendQuery_def drain_loop_stop [OF assms(2,3)] flush_def transmit_writable
                nanosleep_def)

text \<open>
  C5. Let the command be written successfully, and let the line then bring \<open>N\<close>
  telegrams followed by one frame that is not a telegram, each within the wait budget
  (and none of them before the command), and after that any further frames. Then
  \<open>sendQuery\<close> succeeds and returns that first non-telegram frame. The \<open>N\<close>
  telegrams are applied to the driver once each, in order. The reads up to and including
  the reply use the wait budget, every later read uses wait 0; the further frames that
  are there are read and never reach the response (the telegrams among them are
  applied), and reading ends at the first frame that is not there yet.
\<close>

theorem sendQuery_telegrams_then_reply:
  assumes "writable (PortFD st)"
    and "rx (PortFD st) = tels @ (d, reply) # rest"
    and "\<forall>x\<in>set tels. 0 < fst x \<and> fst x \<le> wait \<and> is_telegram (strip_hash (snd x))"
    and "0 < d" and "d \<le> wait" and "\<not> is_telegram (strip_hash reply)"
  shows "sendQuery st cmd e wait =
     ((True, strip_hash reply),
      (apply_frames st (tels @ takeWhile (\<lambda>x. fst x \<le> 0) rest))
        \<lparr>PortFD := (PortFD st)
           \<lparr>rx := dropWhile (\<lambda>x. fst x \<le> 0) rest,
            tx := tx (PortFD st) @ [cmd],
            reads := reads (PortFD st) @ (CHR ''#'', 0) # replicate (Suc (length tels)) (e, wait)
                       @ replicate (Suc (length (takeWhile (\<lambda>x. fst x \<le> 0) rest))) (e, 0)\<rparr>,
         delays := Suc (delays st)\<rparr>)"
proof -
  define avail where "avail = takeWhile (\<lambda>x. fst x \<le> 0) rest"
  define p2 where "p2 = (PortFD st)\<lparr>reads := reads (PortFD st) @ [(CHR ''#'', 0)],
                                     tx := tx (PortFD st) @ [cmd]\<rparr>"
  define p3 where "p3 = p2\<lparr>rx := (d, reply) # rest,
                          reads := reads p2 @ replicate (length tels) (e, wait)\<rparr>"
  define p4 where "p4 = p3\<lparr>reads := reads p3 @ [(e, wait)], rx := rest\<rparr>"
  define p5 where "p5 = p4\<lparr>rx := dropWhile (\<lambda>x. fst x \<le> 0) rest,
                          reads := reads p4 @ replicate (Suc (length avail)) (e, 0)\<rparr>"
  define s1 where "s1 = apply_frames st tels"
  have head: "tels @ (d, reply) # rest = [] \<or> 0 < fst (hd (tels @ (d, reply) # rest))"
    using assms(3,4) by (cases tels) simp_all
  have rx2: "rx (PortFD (st\<lparr>PortFD := p2\<rparr>)) = tels @ ((d, reply) # rest)"
    using assms(2) by (simp add: p2_def)
  have tl: "\<forall>x\<in>set tels. fst x \<le> wait \<and> is_telegram (strip_hash (snd x))"
    using assms(3) by simp
  have l1: "reply_loop (st\<lparr>PortFD := p2\<rparr>) e wait False [] =
            reply_loop (s1\<lparr>PortFD := p3\<rparr>) e wait False []"
    using reply_loop_telegrams [OF rx2 tl, of e False "[]"]
    by (simp add: apply_frames_port_update p3_def s1_def)
  have rx3: "rx (PortFD (s1\<lparr>PortFD := p3\<rparr>)) = (d, reply) # rest"
    by (simp add: p3_def)
  have l2: "reply_loop (s1\<lparr>PortFD := p3\<rparr>) e wait False [] =
            reply_loop (s1\<lparr>PortFD := p4\<rparr>) e 0 True (strip_hash reply)"
    using reply_loop_reply_step [OF rx3 assms(5,6), of e False "[]"]
    by (simp add: p4_def)
  have rx4: "rx (PortFD (s1\<lparr>PortFD := p4\<rparr>)) = rest"
    by (simp add: p4_def)
  have s5: "apply_frames (s1\<lparr>PortFD := p4\<rparr>) avail =
            (apply_frames st (tels @ avail))\<lparr>PortFD := p4\<rparr>"
    by (simp add: apply_frames_port_update apply_frames_append s1_def)
  have l3: "reply_loop (s1\<lparr>PortFD := p4\<rparr>) e 0 True (strip_hash reply) =
            (strip_hash reply, (apply_frames st (tels @ avail))\<lparr>PortFD := p5\<rparr>)"
    using reply_loop_found [OF rx4, of e "strip_hash reply"] s5
    by (simp add: p5_def avail_def)
  have phase: "sendQuery st cmd e wait =
     (let (response, st3) = reply_loop (st\<lparr>PortFD := p2\<rparr>) e wait False []
      in ((True, response), st3\<lparr>delays := Suc (delays st3)\<rparr>))"
    unfolding p2_def by (rule sendQuery_reply_phase [OF assms(1,2) head])
  have res: "sendQuery st cmd e wait =
     ((True, strip_hash reply),
      (apply_frames st (tels @ avail))\<lparr>PortFD := p5, delays := Suc (delays st)\<rparr>)"
    unfolding phase l1 l2 l3 by (simp add: apply_frames_delays)
  have p5: "p5 = (PortFD st)
           \<lparr>rx := dropWhile (\<lambda>x. fst x \<le> 0) rest,
            tx := tx (PortFD st) @ [cmd],
            reads := reads (PortFD st) @ (CHR ''#'', 0) # replicate (Suc (length tels)) (e, wait)
                       @ replicate (Suc (length avail)) (e, 0)\<rparr>"
    by (simp add: p5_def p4_def p3_def p2_def replicate_append_same)
  show ?thesis
    unfolding res p5 avail_def ..
qed

theorem sendQuery_telegrams_then_reply_witness:
  "writable (PortFD (with_line [(1, '':Z1302#''), (1, '':Z1111#''), (1, ''pA#''),
                                (0, ''p0#''), (0, '':Z1003#''), (3, ''p1#'')])) \<and>
   is_telegram '':Z1302'' \<and> is_telegram '':Z1111'' \<and> \<not> is_telegram ''pA'' \<and>
   sendQuery (with_line [(1, '':Z1302#''), (1, '':Z1111#''), (1, ''pA#''),
                         (0, ''p0#''), (0, '':Z1003#''), (3, ''p1#'')])
       '':X361#'' (CHR ''#'') 2 =
     ((True, ''pA''),
      idle_driver
        \<lparr>PortFD :=
           \<lparr>rx = [(3, ''p1#'')], tx_limit = None, tx = ['':X361#''],
            reads = [(CHR ''#'', 0), (CHR ''#'', 2), (CHR ''#'', 2), (CHR ''#'', 2),
                     (CHR ''#'', 0), (CHR ''#'', 0), (CHR ''#'', 0)]\<rparr>,
         CurrentMotorsState := MOTORS_OFF, CurrentTrackMode := TRACK_LUNAR,
         CurrentSlewRate := SLEW_MAX, delays := 1\<rparr>)"
proof -
  let ?st = "with_line [(1, '':Z1302#''), (1, '':Z1111#''), (1, ''pA#''),
                        (0, ''p0#''), (0, '':Z1003#''), (3, ''p1#'')]"
  have t1: "is_telegram '':Z1302''" and t2: "is_telegram '':Z1111''"
    and t3: "\<not> is_telegram ''pA''"
    by code_simp+
  have h1: "writable (PortFD ?st)"
    by (simp add: with_line_def idle_port_def)
  have h2: "rx (PortFD ?st) =
      [(1, '':Z1302#''), (1, '':Z1111#'')] @ (1, ''pA#'') # [(0, ''p0#''), (0, '':Z1003#''), (3, ''p1#'')]"
    by (simp add: with_line_def)
  have h3: "\<forall>x\<in>set [(1::int, '':Z1302#''), (1, '':Z1111#'')].
              0 < fst x \<and> fst x \<le> 2 \<and> is_telegram (strip_hash (snd x))"
    using t1 t2 by (simp add: strip_hash_def)
  have h6: "\<not> is_telegram (strip_hash ''pA#'')"
    using t3 by (simp add: strip_hash_def)
  have a: "apply_frames ?st ([(1, '':Z1302#''), (1, '':Z1111#'')] @
             takeWhile (\<lambda>x. fst x \<le> 0) [(0, ''p0#''), (0, '':Z1003#''), (3::int, ''p1#'')]) =
           ?st\<lparr>CurrentMotorsState := MOTORS_OFF, CurrentTrackMode := TRACK_LUNAR,
                CurrentSlewRate := SLEW_MAX\<rparr>"
    by code_simp
  show ?thesis
    using sendQuery_telegrams_then_reply [OF h1 h2 h3 _ _ h6, of "'':X361#''" "CHR ''#''"] t1 t2 t3 h1
    unfolding a
    by (simp add: with_line_def idle_driver_def idle_port_def strip_hash_def)
qed

text \<open>
  C3, as the code has it. The first loop of \<open>sendQuery\<close> reads with stop character
  \<open>#\<close> and wait 0, and it does not stop at a frame that is not a telegram: it consumes
  every frame that is on the line, applies those that are telegrams, in order, and drops
  the others; it ends only with the read that finds nothing (an empty line, or a next
  frame that has not arrived yet). That makes one read more than frames consumed.
\<close>

theorem drain_consumes_every_available_frame:
  assumes "rx (PortFD st) = avail @ later"
    and "\<forall>x\<in>set avail. fst x \<le> 0"
    and "later = [] \<or> 0 < fst (hd later)"
  shows "drain_loop st =
     (apply_frames st (filter (\<lambda>x. is_telegram (strip_hash (snd x))) avail))
       \<lparr>PortFD := (PortFD st)
          \<lparr>rx := later,
           reads := reads (PortFD st) @ replicate (Suc (length avail)) (CHR ''#'', 0)\<rparr>\<rparr>"
  using drain_loop_available [OF assms] by (simp add: apply_frames_skip)

theorem drain_consumes_every_available_frame_witness:
  "rx (PortFD (with_line [(0, ''pA#''), (0, '':Z1302#''), (1, ''m10#'')])) =
     [(0, ''pA#''), (0, '':Z1302#'')] @ [(1, ''m10#'')] \<and>
   \<not> is_telegram ''pA'' \<and> is_telegram '':Z1302'' \<and>
   drain_loop (with_line [(0, ''pA#''), (0, '':Z1302#''), (1, ''m10#'')]) =
     idle_driver
       \<lparr>PortFD := \<lparr>rx = [(1, ''m10#'')], tx_limit = None, tx = [],
                   reads = [(CHR ''#'', 0), (CHR ''#'', 0), (CHR ''#'', 0)]\<rparr>,
        CurrentMotorsState := MOTORS_ON, CurrentSlewRate := SLEW_FIND\<rparr>"
proof -
  let ?st = "with_line [(0, ''pA#''), (0, '':Z1302#''), (1, ''m10#'')]"
  have t1: "\<not> is_telegram ''pA''" and t2: "is_telegram '':Z1302''"
    by code_simp+
  have h1: "rx (PortFD ?st) = [(0, ''pA#''), (0, '':Z1302#'')] @ [(1, ''m10#'')]"
    by (simp add: with_line_def)
  have h2: "\<forall>x\<in>set [(0::int, ''pA#''), (0, '':Z1302#'')]. fst x \<le> 0"
    by simp
  have h3: "[(1::int, ''m10#'')] = [] \<or> 0 < fst (hd [(1::int, ''m10#'')])"
    by simp
  have a: "apply_frames ?st
             (filter (\<lambda>x. is_telegram (strip_hash (snd x))) [(0, ''pA#''), (0, '':Z1302#'')]) =
           ?st\<lparr>CurrentMotorsState := MOTORS_ON, CurrentSlewRate := SLEW_FIND\<rparr>"
    by code_simp
  show ?thesis
    using drain_consumes_every_available_frame [OF h1 h2 h3] t1 t2 h1
    unfolding a
    by (simp add: with_line_def idle_driver_def idle_port_def)
qed

theorem drain_stops_at_reply_counterexample:
  "\<not> is_telegram ''pA'' \<and>
   rx (PortFD (drain_loop (with_line [(0, ''pA#''), (0, '':Z1302#'')]))) = [] \<and>
   CurrentMotorsState (with_line [(0, ''pA#''), (0, '':Z1302#'')]) = MOTORS_OFF \<and>
   CurrentMotorsState (drain_loop (with_line [(0, ''pA#''), (0, '':Z1302#'')])) = MOTORS_ON"
  by code_simp

lemma receive_port:
  "receive st e w = (r, st') \<Longrightarrow>
   writable (PortFD st') = writable (PortFD st) \<and> tx (PortFD st') = tx (PortFD st) \<and>
   set (rx (PortFD st')) \<subseteq> set (rx (PortFD st))"
  by (auto simp: receive_def tty_read_section_def Let_def split: list.splits if_splits)

lemma drain_loop_port:
  "writable (PortFD (drain_loop st)) = writable (PortFD st) \<and>
   tx (PortFD (drain_loop st)) = tx (PortFD st) \<and>
   set (rx (PortFD (drain_loop st))) \<subseteq> set (rx (PortFD st))"
proof (induction st rule: drain_loop.induct)
  case (1 st)
  obtain r st' where rc: "receive st (CHR ''#'') 0 = (r, st')"
    by (cases "receive st (CHR ''#'') 0")
  note p = receive_port [OF rc]
  show ?case
  proof (cases r)
    case None
    with rc have "drain_loop st = st'"
      by (subst drain_loop.simps) simp
    with p show ?thesis by simp
  next
    case (Some l)
    with rc have eq: "drain_loop st = drain_loop (snd (ParseMotionState st' l))"
      by (subst drain_loop.simps) simp
    from "1.IH" [OF rc [symmetric] Some] p show ?thesis
      unfolding eq by (simp add: ParseMotionState_PortFD) blast
  qed
qed

lemma reply_loop_only_telegrams:
  "\<forall>x\<in>set (rx (PortFD st)). is_telegram (strip_hash (snd x)) \<Longrightarrow>
   fst (reply_loop st e w found r) = r"
proof (induction st e w found r rule: reply_loop.induct)
  case (1 st e w found r)
  obtain c st' where rc: "receive st e w = (c, st')"
    by (cases "receive st e w")
  show ?case
  proof (cases c)
    case None
    with rc show ?thesis
      by (subst reply_loop.simps) simp
  next
    case (Some l)
    from rc Some obtain d b rest where rx: "rx (PortFD st) = (d, b) # rest"
      and l: "l = strip_hash b" and st': "rx (PortFD st') = rest"
      by (auto simp: receive_def tty_read_section_def Let_def split: list.splits if_splits)
    from "1.prems" rx l have tel: "is_telegram l" by simp
    obtain st'' where pm: "ParseMotionState st' l = (True, st'')"
      using ParseMotionState_telegram [of st' l] tel
      by (cases "ParseMotionState st' l") simp
    have "PortFD st'' = PortFD st'"
      using ParseMotionState_PortFD [of st' l] pm by simp
    with "1.prems" rx st' have "\<forall>x\<in>set (rx (PortFD st'')). is_telegram (strip_hash (snd x))"
      by simp
    from "1.IH"(1) [OF rc [symmetric] Some pm [symmetric] refl this]
    show ?thesis
      using rc Some pm by (subst reply_loop.simps) simp
  qed
qed

text \<open>
  C1, as the code has it. Once the command has been written, \<open>sendQuery\<close> returns
  success whatever the reads bring; when everything on the line is a telegram, or the
  line is empty, it returns success with an empty response. There is no timeout failure.
\<close>

theorem sendQuery_without_reply_succeeds:
  assumes "writable (PortFD st)"
  shows "fst (fst (sendQuery st cmd e wait)) \<and>
         ((\<forall>x\<in>set (rx (PortFD st)). is_telegram (strip_hash (snd x))) \<longrightarrow>
            fst (sendQuery st cmd e wait) = (True, []))"
proof -
  let ?st1 = "drain_loop st"
  from drain_loop_port [of st] assms have w: "writable (PortFD ?st1)" by simp
  let ?st2 = "?st1\<lparr>PortFD := (PortFD ?st1)\<lparr>tx := tx (PortFD ?st1) @ [cmd]\<rparr>\<rparr>"
  have ok: "fst (fst (sendQuery st cmd e wait))"
    by (simp add: sendQuery_def flush_def transmit_writable [OF w] split: prod.splits)
  have "fst (sendQuery st cmd e wait) = (True, [])"
    if t: "\<forall>x\<in>set (rx (PortFD st)). is_telegram (strip_hash (snd x))"
  proof -
    from drain_loop_port [of st] t
    have "\<forall>x\<in>set (rx (PortFD ?st2)). is_telegram (strip_hash (snd x))"
      by auto
    from reply_loop_only_telegrams [OF this, of e wait False "[]"]
    show ?thesis
      by (auto simp: sendQuery_def flush_def transmit_writable [OF w] split: prod.splits)
  qed
  with ok show ?thesis by blast
qed

theorem sendQuery_without_reply_succeeds_witness:
  "writable (PortFD (with_line [(1, '':Z1302#'')])) \<and> is_telegram '':Z1302'' \<and>
   fst (sendQuery (with_line [(1, '':Z1302#'')]) '':X34#'' (CHR ''#'') 2) = (True, [])"
proof -
  have t: "is_telegram '':Z1302''"
    by code_simp
  have h1: "writable (PortFD (with_line [(1, '':Z1302#'')]))"
    by (simp add: with_line_def idle_port_def)
  have h2: "\<forall>x\<in>set (rx (PortFD (with_line [(1, '':Z1302#'')]))).
              is_telegram (strip_hash (snd x))"
    using t by (simp add: with_line_def strip_hash_def)
  show ?thesis
    using sendQuery_without_reply_succeeds [OF h1, of "'':X34#''" "CHR ''#''" 2] h2 t h1
    by simp
qed

theorem sendQuery_timeout_counterexample:
  "is_telegram '':Z1302'' \<and>
   sendQuery (with_line [(1, '':Z1302#'')]) '':X34#'' (CHR ''#'') 2 =
     ((True, []),
      idle_driver
        \<lparr>PortFD := \<lparr>rx = [], tx_limit = None, tx = ['':X34#''],
                    reads = [(CHR ''#'', 0), (CHR ''#'', 2), (CHR ''#'', 2)]\<rparr>,
         CurrentMotorsState := MOTORS_ON, CurrentSlewRate := SLEW_FIND, delays := 1\<rparr>)"
  by code_simp

subsection \<open>What a query leaves alone\<close>

lemma receive_changes:
  "\<exists>p. snd (receive st e w) = st\<lparr>PortFD := p\<rparr>"
  by (auto simp: receive_def tty_read_section_def Let_def split: list.splits prod.splits)

lemma drain_loop_changes:
  "\<exists>p m t s. drain_loop st =
     st\<lparr>PortFD := p, CurrentMotorsState := m, CurrentTrackMode := t, CurrentSlewRate := s\<rparr>"
proof (induction st rule: drain_loop.induct)
  case (1 st)
  obtain r st' where rc: "receive st (CHR ''#'') 0 = (r, st')"
    by (cases "receive st (CHR ''#'') 0")
  from receive_changes [of st "CHR ''#''" 0] rc obtain p where st': "st' = st\<lparr>PortFD := p\<rparr>"
    by auto
  show ?case
  proof (cases r)
    case None
    with rc have "drain_loop st = st'"
      by (subst drain_loop.simps) simp
    then have "drain_loop st =
        st\<lparr>PortFD := p, CurrentMotorsState := CurrentMotorsState st,
           CurrentTrackMode := CurrentTrackMode st, CurrentSlewRate := CurrentSlewRate st\<rparr>"
      using st' by simp
    then show ?thesis by blast
  next
    case (Some l)
    with rc have eq: "drain_loop st = drain_loop (snd (ParseMotionState st' l))"
      by (subst drain_loop.simps) simp
    from ParseMotionState_changes [of st' l] obtain m t s where
      pm: "snd (ParseMotionState st' l) =
             st'\<lparr>CurrentMotorsState := m, CurrentTrackMode := t, CurrentSlewRate := s\<rparr>"
      by blast
    from "1.IH" [OF rc [symmetric] Some] obtain p' m' t' s' where
      "drain_loop (snd (ParseMotionState st' l)) =
         (snd (ParseMotionState st' l))
           \<lparr>PortFD := p', CurrentMotorsState := m', CurrentTrackMode := t', CurrentSlewRate := s'\<rparr>"
      by blast
    with eq pm st' have "drain_loop st =
        st\<lparr>PortFD := p', CurrentMotorsState := m', CurrentTrackMode := t', CurrentSlewRate := s'\<rparr>"
      by simp
    then show ?thesis by blast
  qed
qed

lemma reply_loop_changes:
  "\<exists>p m t s. snd (reply_loop st e w found r) =
     st\<lparr>PortFD := p, CurrentMotorsState := m, CurrentTrackMode := t, CurrentSlewRate := s\<rparr>"
proof (induction st e w found r rule: reply_loop.induct)
  case (1 st e w found r)
  obtain c st' where rc: "receive st e w = (c, st')"
    by (cases "receive st e w")
  from receive_changes [of st e w] rc obtain p where st': "st' = st\<lparr>PortFD := p\<rparr>"
    by auto
  show ?case
  proof (cases c)
    case None
    with rc have "snd (reply_loop st e w found r) = st'"
      by (subst reply_loop.simps) simp
    then have "snd (reply_loop st e w found r) =
        st\<lparr>PortFD := p, CurrentMotorsState := CurrentMotorsState st,
           CurrentTrackMode := CurrentTrackMode st, CurrentSlewRate := CurrentSlewRate st\<rparr>"
      using st' by simp
    then show ?thesis by blast
  next
    case (Some l)
    obtain b st'' where pm: "ParseMotionState st' l = (b, st'')"
      by (cases "ParseMotionState st' l")
    from ParseMotionState_changes [of st' l] pm obtain m t s where
      st'': "st'' = st'\<lparr>CurrentMotorsState := m, CurrentTrackMode := t, CurrentSlewRate := s\<rparr>"
      by auto
    show ?thesis
    proof (cases b)
      case True
      with pm have pm': "ParseMotionState st' l = (True, st'')" by simp
      from "1.IH"(1) [OF rc [symmetric] Some pm' [symmetric] refl]
      obtain p' m' t' s' where
        "snd (reply_loop st'' e w found r) =
           st''\<lparr>PortFD := p', CurrentMotorsState := m', CurrentTrackMode := t',
                CurrentSlewRate := s'\<rparr>"
        by blast
      moreover have "reply_loop st e w found r = reply_loop st'' e w found r"
        using rc Some pm True by (subst reply_loop.simps) simp
      ultimately have "snd (reply_loop st e w found r) =
          st\<lparr>PortFD := p', CurrentMotorsState := m', CurrentTrackMode := t',
             CurrentSlewRate := s'\<rparr>"
        using st' st'' by simp
      then show ?thesis by blast
    next
      case False
      with pm have pm': "ParseMotionState st' l = (False, st'')" by simp
      from "1.IH"(2) [OF rc [symmetric] Some pm' [symmetric] refl]
      obtain p' m' t' s' where
        "snd (reply_loop st'' e 0 True (if \<not> found then l else r)) =
           st''\<lparr>PortFD := p', CurrentMotorsState := m', CurrentTrackMode := t',
                CurrentSlewRate := s'\<rparr>"
        by blast
      moreover have "reply_loop st e w found r =
          reply_loop st'' e 0 True (if \<not> found then l else r)"
        using rc Some pm False by (subst reply_loop.simps) simp
      ultimately have "snd (reply_loop st e w found r) =
          st\<lparr>PortFD := p', CurrentMotorsState := m', CurrentTrackMode := t',
             CurrentSlewRate := s'\<rparr>"
        using st' st'' by simp
      then show ?thesis by blast
    qed
  qed
qed

lemma transmit_changes: "\<exists>p. snd (transmit st cmd) = st\<lparr>PortFD := p\<rparr>"
proof (cases "writable (PortFD st)")
  case True
  then have "snd (transmit st cmd) =
      st\<lparr>PortFD := (PortFD st)\<lparr>tx := tx (PortFD st) @ [cmd]\<rparr>\<rparr>"
    by (simp add: transmit_writable)
  then show ?thesis by blast
next
  case False
  then have "snd (transmit st cmd) = st\<lparr>PortFD := PortFD st\<rparr>"
    by (simp add: transmit_def tty_write_string_def flush_def)
  then show ?thesis by blast
qed

lemma sendQuery_changes:
  "\<exists>p m t s. snd (sendQuery st cmd e w) =
     st\<lparr>PortFD := p, CurrentMotorsState := m, CurrentTrackMode := t, CurrentSlewRate := s,
        delays := Suc (delays st)\<rparr>"
proof -
  from drain_loop_changes [of st] obtain p1 m1 t1 s1 where
    d: "drain_loop st =
          st\<lparr>PortFD := p1, CurrentMotorsState := m1, CurrentTrackMode := t1,
             CurrentSlewRate := s1\<rparr>"
    by blast
  obtain sent st2 where tr: "transmit (drain_loop st) cmd = (sent, st2)"
    by (cases "transmit (drain_loop st) cmd")
  from transmit_changes [of "drain_loop st" cmd] tr obtain p2 where
    st2: "st2 = (drain_loop st)\<lparr>PortFD := p2\<rparr>"
    by auto
  show ?thesis
  proof (cases sent)
    case False
    with tr have "snd (sendQuery st cmd e w) = nanosleep st2"
      by (simp add: sendQuery_def flush_def)
    with st2 d have "snd (sendQuery st cmd e w) =
        st\<lparr>PortFD := p2, CurrentMotorsState := m1, CurrentTrackMode := t1,
           CurrentSlewRate := s1, delays := Suc (delays st)\<rparr>"
      by (simp add: nanosleep_def)
    then show ?thesis by blast
  next
    case True
    from reply_loop_changes [of st2 e w False "[]"] obtain p3 m3 t3 s3 where
      r: "snd (reply_loop st2 e w False []) =
            st2\<lparr>PortFD := p3, CurrentMotorsState := m3, CurrentTrackMode := t3,
                CurrentSlewRate := s3\<rparr>"
      by blast
    from True tr have "snd (sendQuery st cmd e w) = nanosleep (snd (reply_loop st2 e w False []))"
      by (simp add: sendQuery_def flush_def split: prod.splits)
    with r st2 d have "snd (sendQuery st cmd e w) =
        st\<lparr>PortFD := p3, CurrentMotorsState := m3, CurrentTrackMode := t3,
           CurrentSlewRate := s3, delays := Suc (delays st)\<rparr>"
      by (simp add: nanosleep_def)
    then show ?thesis by blast
  qed
qed

lemma sendQuery_published_position:
  "published_position (snd (sendQuery st cmd e w)) = published_position st"
  using sendQuery_changes [of st cmd e w] by (auto simp: published_position_def)

lemma sendQuery_other_fields:
  "TrackingAdjustment_value (snd (sendQuery st cmd e w)) = TrackingAdjustment_value st"
  "TrackingAdjustmentNP_s (snd (sendQuery st cmd e w)) = TrackingAdjustmentNP_s st"
  "IsParked (snd (sendQuery st cmd e w)) = IsParked st"
  "MountGotoHomeSP_s (snd (sendQuery st cmd e w)) = MountGotoHomeSP_s st"
  "currentPierSide (snd (sendQuery st cmd e w)) = currentPierSide st"
  using sendQuery_changes [of st cmd e w] by auto

subsection \<open>Pier side\<close>

text \<open>
  C10. When the reply to \<open>:X39#\<close> is \<open>P\<close> followed by a letter,
  \<open>syncSideOfPier\<close> succeeds and publishes the opposite of the letter: \<open>W\<close>
  gives east, \<open>E\<close> gives west, \<open>X\<close> gives unknown, and with any other letter
  the pier side published before stays as it is.
\<close>

theorem syncSideOfPier_inverts_letter:
  assumes "sendQuery st '':X39#'' (CHR ''#'') tmo = ((True, CHR ''P'' # c # rest), st1)"
  shows "syncSideOfPier st tmo answer0 =
     (True,
      st1\<lparr>currentPierSide :=
            (if c = CHR ''X'' then PIER_UNKNOWN
             else if c = CHR ''W'' then PIER_EAST
             else if c = CHR ''E'' then PIER_WEST
             else currentPierSide st)\<rparr>)"
proof -
  have sc: "sscanf (CHR ''P'' # c # rest) fmt_P = (1, [ChrV c])"
    by (simp add: sscanf_def fmt_P_def)
  have "currentPierSide st1 = currentPierSide st"
    using sendQuery_other_fields(5) [of st "'':X39#''" "CHR ''#''" tmo] assms by simp
  then have "st1\<lparr>currentPierSide := currentPierSide st\<rparr> = st1"
    by simp
  then show ?thesis
    by (simp add: syncSideOfPier_def assms sc setPierSide_def)
qed

theorem syncSideOfPier_inverts_letter_witness:
  "sendQuery (with_line [(1, ''PW#'')]) '':X39#'' (CHR ''#'') 2 =
     ((True, CHR ''P'' # CHR ''W'' # []),
      idle_driver\<lparr>PortFD := \<lparr>rx = [], tx_limit = None, tx = ['':X39#''],
                               reads = [(CHR ''#'', 0), (CHR ''#'', 2), (CHR ''#'', 0)]\<rparr>,
                  delays := 1\<rparr>) \<and>
   syncSideOfPier (with_line [(1, ''PW#'')]) 2 (CHR ''?'') =
     (True,
      idle_driver\<lparr>PortFD := \<lparr>rx = [], tx_limit = None, tx = ['':X39#''],
                               reads = [(CHR ''#'', 0), (CHR ''#'', 2), (CHR ''#'', 0)]\<rparr>,
                  delays := 1, currentPierSide := PIER_EAST\<rparr>)"
proof -
  have h: "sendQuery (with_line [(1, ''PW#'')]) '':X39#'' (CHR ''#'') 2 =
     ((True, CHR ''P'' # CHR ''W'' # []),
      idle_driver\<lparr>PortFD := \<lparr>rx = [], tx_limit = None, tx = ['':X39#''],
                               reads = [(CHR ''#'', 0), (CHR ''#'', 2), (CHR ''#'', 0)]\<rparr>,
                  delays := 1\<rparr>)"
    by code_simp
  show ?thesis
    using syncSideOfPier_inverts_letter [OF h, of "CHR ''?''"] h by simp
qed

subsection \<open>Coordinates\<close>

lemma takeWhile_all: "\<forall>x\<in>set xs. P x \<Longrightarrow> takeWhile P xs = xs"
  by (induction xs) simp_all

lemma scan_float_digits:
  assumes "length ds = w" and "ds \<noteq> []" and "\<forall>c\<in>set ds. isdigit_c c"
  shows "scan_float w (ds @ rest) = Some (of_nat (dec_val ds), rest)"
proof -
  obtain c cs where ds: "ds = c # cs" using assms(2) by (cases ds) auto
  with assms(3) have c: "isdigit_c c" by simp
  have sg: "scan_sign w (ds @ rest) = (False, w, ds @ rest)"
    using isdigit_not_sign [OF c] by (simp add: scan_sign_def ds)
  have ip: "takeWhile isdigit_c ds = ds"
    using assms(3) by (simp add: takeWhile_all)
  show ?thesis
    using assms(1,2) by (simp add: scan_float_def sg ip dec_val_def)
qed

lemma scan_float_signed_digits:
  assumes "length ds = w" and "ds \<noteq> []" and "\<forall>c\<in>set ds. isdigit_c c"
    and "sg = CHR ''-'' \<or> sg = CHR ''+''"
  shows "scan_float (Suc w) (sg # ds @ rest) =
           Some ((if sg = CHR ''-'' then - of_nat (dec_val ds) else of_nat (dec_val ds)), rest)"
proof -
  have s: "scan_sign (Suc w) (sg # ds @ rest) = (sg = CHR ''-'', w, ds @ rest)"
    using assms(4) by (auto simp: scan_sign_def)
  have ip: "takeWhile isdigit_c ds = ds"
    using assms(3) by (simp add: takeWhile_all)
  show ?thesis
    using assms(1,2) by (simp add: scan_float_def s ip dec_val_def)
qed

lemma sscanf_RD_signed:
  assumes "length ra = 8" and "\<forall>c\<in>set ra. isdigit_c c"
    and "sg = CHR ''-'' \<or> sg = CHR ''+''"
    and "length de = 7" and "\<forall>c\<in>set de. isdigit_c c"
  shows "sscanf (''RD'' @ ra @ sg # de) fmt_RD =
     (2, [DblV (of_nat (dec_val ra)),
          DblV (if sg = CHR ''-'' then - of_nat (dec_val de) else of_nat (dec_val de))])"
proof -
  from assms(1) have ra: "ra \<noteq> []" by auto
  from assms(4) have de: "de \<noteq> []" by auto
  obtain c cs where rac: "ra = c # cs" using ra by (cases ra) auto
  with assms(2) have "isdigit_c c" by simp
  then have ws1: "skip_ws (ra @ sg # de) = ra @ sg # de"
    by (simp add: rac skip_ws_digit)
  have ws2: "skip_ws (sg # de) = sg # de"
    using assms(3) by (auto simp: skip_ws_def isspace_c_def)
  have f1: "scan_float 8 (ra @ sg # de) = Some (of_nat (dec_val ra), sg # de)"
    using scan_float_digits [OF assms(1) ra assms(2)] .
  have f2: "scan_float 8 (sg # de) =
      Some ((if sg = CHR ''-'' then - of_nat (dec_val de) else of_nat (dec_val de)), [])"
    using scan_float_signed_digits [OF assms(4) de assms(5,3), of "[]"]
    by (simp add: eval_nat_numeral)
  show ?thesis
    using ra by (simp add: sscanf_def fmt_RD_def ws1 ws2 f1 f2)
qed

text \<open>
  C4, as the code has it. A minus or plus sign at the head of the second 8-character
  field is read by \<open>%08lf\<close> as the sign of the declination: a reply \<open>RD\<close>, eight
  digits, a sign and seven digits is decoded with success, the right ascension being the
  first number over \<open>10\<^sup>6\<close> and the declination the signed second number over
  \<open>10\<^sup>5\<close>. The reply \<open>RD00123450-0050000\<close> gives 0.12345 hours and -0.5 degrees.
\<close>

theorem getEqCoordinates_signed_declination:
  assumes "sendQuery st '':X590#'' (CHR ''#'') tmo = ((True, ''RD'' @ ra @ sg # de), st1)"
    and "length ra = 8" and "\<forall>c\<in>set ra. isdigit_c c"
    and "sg = CHR ''-'' \<or> sg = CHR ''+''"
    and "length de = 7" and "\<forall>c\<in>set de. isdigit_c c"
  shows "getEqCoordinates st tmo =
     (Some (of_nat (dec_val ra) / 1000000,
            (if sg = CHR ''-'' then - of_nat (dec_val de) else of_nat (dec_val de)) / 100000),
      st1)"
  using sscanf_RD_signed [OF assms(2-6)] assms(1)
  by (simp add: getEqCoordinates_def)

theorem getEqCoordinates_signed_declination_witness:
  "sendQuery (with_line [(1, ''RD00123450-0050000#'')]) '':X590#'' (CHR ''#'') 2 =
     ((True, ''RD'' @ ''00123450'' @ CHR ''-'' # ''0050000''),
      idle_driver\<lparr>PortFD := \<lparr>rx = [], tx_limit = None, tx = ['':X590#''],
                               reads = [(CHR ''#'', 0), (CHR ''#'', 2), (CHR ''#'', 0)]\<rparr>,
                  delays := 1\<rparr>) \<and>
   getEqCoordinates (with_line [(1, ''RD00123450-0050000#'')]) 2 =
     (Some (12345 / 100000, - 1 / 2),
      idle_driver\<lparr>PortFD := \<lparr>rx = [], tx_limit = None, tx = ['':X590#''],
                               reads = [(CHR ''#'', 0), (CHR ''#'', 2), (CHR ''#'', 0)]\<rparr>,
                  delays := 1\<rparr>)"
proof -
  have h1: "sendQuery (with_line [(1, ''RD00123450-0050000#'')]) '':X590#'' (CHR ''#'') 2 =
     ((True, ''RD'' @ ''00123450'' @ CHR ''-'' # ''0050000''),
      idle_driver\<lparr>PortFD := \<lparr>rx = [], tx_limit = None, tx = ['':X590#''],
                               reads = [(CHR ''#'', 0), (CHR ''#'', 2), (CHR ''#'', 0)]\<rparr>,
                  delays := 1\<rparr>)"
    by code_simp
  have h2: "length ''00123450'' = 8" and h5: "length ''0050000'' = 7"
    by simp_all
  have h3: "\<forall>c\<in>set ''00123450''. isdigit_c c" and h6: "\<forall>c\<in>set ''0050000''. isdigit_c c"
    by (simp_all add: isdigit_c_def)
  have h4: "CHR ''-'' = CHR ''-'' \<or> CHR ''-'' = CHR ''+''"
    by simp
  have v: "dec_val ''00123450'' = 123450" "dec_val ''0050000'' = 50000"
    by (simp_all add: dec_val_def digit_val_def)
  show ?thesis
    using getEqCoordinates_signed_declination [OF h1 h2 h3 h4 h5 h6] h1
    by (simp add: v)
qed

theorem getEqCoordinates_minus_counterexample:
  "fst (getEqCoordinates (with_line [(1, ''RD00123450-0050000#'')]) 2) =
     Some (12345 / 100000, - 1 / 2)"
proof -
  have q: "sendQuery (with_line [(1, ''RD00123450-0050000#'')]) '':X590#'' (CHR ''#'') 2 =
     ((True, ''RD00123450-0050000''),
      idle_driver\<lparr>PortFD := \<lparr>rx = [], tx_limit = None, tx = ['':X590#''],
                               reads = [(CHR ''#'', 0), (CHR ''#'', 2), (CHR ''#'', 0)]\<rparr>,
                  delays := 1\<rparr>)"
    by code_simp
  have sc: "sscanf ''RD00123450-0050000'' fmt_RD = (2, [DblV 123450, DblV (- 50000)])"
    using sscanf_RD_signed [of "''00123450''" "CHR ''-''" "''0050000''"]
    by (simp add: isdigit_c_def dec_val_def digit_val_def)
  show ?thesis
    by (simp add: getEqCoordinates_def q sc)
qed

subsection \<open>What a query writes\<close>

lemma reply_loop_tx: "tx (PortFD (snd (reply_loop st e w found r))) = tx (PortFD st)"
proof (induction st e w found r rule: reply_loop.induct)
  case (1 st e w found r)
  obtain c st' where rc: "receive st e w = (c, st')"
    by (cases "receive st e w")
  note p = receive_port [OF rc]
  show ?case
  proof (cases c)
    case None
    with rc p show ?thesis
      by (subst reply_loop.simps) simp
  next
    case (Some l)
    obtain b st'' where pm: "ParseMotionState st' l = (b, st'')"
      by (cases "ParseMotionState st' l")
    have port: "PortFD st'' = PortFD st'"
      using ParseMotionState_PortFD [of st' l] pm by simp
    show ?thesis
    proof (cases b)
      case True
      with pm have pm': "ParseMotionState st' l = (True, st'')" by simp
      from "1.IH"(1) [OF rc [symmetric] Some pm' [symmetric] refl] p port
      show ?thesis
        using rc Some pm' by (subst reply_loop.simps) simp
    next
      case False
      with pm have pm': "ParseMotionState st' l = (False, st'')" by simp
      from "1.IH"(2) [OF rc [symmetric] Some pm' [symmetric] refl] p port
      show ?thesis
        using rc Some pm' by (subst reply_loop.simps) simp
    qed
  qed
qed

lemma sendQuery_writes:
  assumes "writable (PortFD st)"
  shows "fst (fst (sendQuery st cmd e w)) \<and>
         tx (PortFD (snd (sendQuery st cmd e w))) = tx (PortFD st) @ [cmd]"
proof -
  let ?st1 = "drain_loop st"
  from drain_loop_port [of st] assms have w1: "writable (PortFD ?st1)"
    and t1: "tx (PortFD ?st1) = tx (PortFD st)"
    by simp_all
  let ?st2 = "?st1\<lparr>PortFD := (PortFD ?st1)\<lparr>tx := tx (PortFD ?st1) @ [cmd]\<rparr>\<rparr>"
  have "tx (PortFD (snd (reply_loop ?st2 e w False []))) = tx (PortFD st) @ [cmd]"
    using reply_loop_tx [of ?st2 e w False "[]"] t1 by simp
  then show ?thesis
    by (auto simp: sendQuery_def flush_def transmit_writable [OF w1] nanosleep_def
             split: prod.splits)
qed

subsection \<open>Tracking adjustment\<close>

lemma fmt_plus_500: "fmt_plus_0d 4 500 = ''+500''" "fmt_plus_0d 4 (- 500) = ''-500''"
  by (simp_all add: fmt_plus_0d_def pad0_def digit_char_numerals)

lemma round_half_even_le: "y \<le> of_int K \<Longrightarrow> round_half_even y \<le> K"
proof -
  assume a: "y \<le> of_int K"
  then have f: "\<lfloor>y\<rfloor> \<le> K" by (simp add: floor_le_iff)
  show ?thesis
  proof (cases "\<lfloor>y\<rfloor> = K")
    case True
    then have "y - of_int \<lfloor>y\<rfloor> \<le> 0" using a by simp
    then show ?thesis using True by (simp add: round_half_even_def Let_def)
  next
    case False
    with f have "\<lfloor>y\<rfloor> + 1 \<le> K" by simp
    with f show ?thesis by (simp add: round_half_even_def Let_def)
  qed
qed

lemma round_half_even_nonneg: "0 \<le> y \<Longrightarrow> 0 \<le> round_half_even y"
proof -
  assume "0 \<le> y"
  then have "0 \<le> \<lfloor>y\<rfloor>" by simp
  then show ?thesis by (simp add: round_half_even_def Let_def)
qed

lemma binade_up_bounds: "1 \<le> a \<Longrightarrow> 2 ^ binade_up a \<le> a \<and> a < 2 * 2 ^ binade_up a"
proof (induction a rule: binade_up.induct)
  case (1 a)
  show ?case
  proof (cases "2 \<le> a")
    case True
    then have "1 \<le> a / 2" by simp
    from 1(1) [OF True this] show ?thesis
      by (subst (1 2) binade_up.simps) (simp add: True)
  next
    case False
    with 1(2) show ?thesis by (subst (1 2) binade_up.simps) simp
  qed
qed

lemma binade_down_bounds:
  "0 < a \<Longrightarrow> a < 1 \<Longrightarrow> 1 \<le> a * 2 ^ binade_down a \<and> a * 2 ^ binade_down a < 2"
proof (induction a rule: binade_down.induct)
  case (1 a)
  show ?case
  proof (cases "2 * a < 1")
    case True
    have "0 < 2 * a" using 1(2) by simp
    from 1(1) [OF _ this True] 1(2,3) show ?thesis
      by (subst (1 2) binade_down.simps) (simp add: mult.assoc)
  next
    case False
    have "binade_down (2 * a) = 0" using False by (subst binade_down.simps) simp
    with False 1(2,3) show ?thesis by (subst (1 2) binade_down.simps) simp
  qed
qed

lemma round_double_bound:
  assumes "\<bar>q\<bar> \<le> 500"
  shows "\<bar>round_double q\<bar> \<le> 500"
proof (cases "q = 0")
  case True
  then show ?thesis by (simp add: round_double_def)
next
  case False
  define a where "a = \<bar>q\<bar>"
  define ulp :: rat where "ulp = (if 1 \<le> a then 2 ^ binade_up a / 2 ^ 52
                   else 1 / (2 ^ binade_down a * 2 ^ 52))"
  define m where "m = round_half_even (a / ulp)"
  have a: "0 < a" "a \<le> 500" using False assms by (simp_all add: a_def)
  have ulp: "0 < ulp" by (simp add: ulp_def)
  have m0: "0 \<le> m" unfolding m_def using a ulp by (intro round_half_even_nonneg) simp
  have rd: "\<bar>round_double q\<bar> = of_int m * ulp"
    using False m0 ulp by (simp add: round_double_def Let_def a_def [symmetric] ulp_def [symmetric] m_def [symmetric] abs_mult)
  have "of_int m * ulp \<le> 500"
  proof (cases "1 \<le> a")
    case True
    define n where "n = binade_up a"
    have b: "2 ^ n \<le> a" using binade_up_bounds [OF True] by (simp add: n_def)
    have n8: "n \<le> 8"
    proof (rule ccontr)
      assume "\<not> n \<le> 8"
      then have "9 \<le> n" by simp
      then have "(2::rat) ^ 9 \<le> 2 ^ n" by (intro power_increasing) simp_all
      with b a show False by simp
    qed
    have u: "ulp = 2 ^ n / 2 ^ 52" using True by (simp add: ulp_def n_def)
    have p: "(2::rat) ^ 52 = 2 ^ (52 - n) * 2 ^ n" using n8 by (simp add: power_add [symmetric])
    have "a / ulp = a * 2 ^ (52 - n)" unfolding u p by simp
    also have "\<dots> \<le> 500 * 2 ^ (52 - n)" using a by simp
    also have "\<dots> = of_int (500 * 2 ^ (52 - n))" by simp
    finally have "m \<le> 500 * 2 ^ (52 - n)" unfolding m_def by (rule round_half_even_le)
    then have "(of_int m :: rat) \<le> of_int (500 * 2 ^ (52 - n))" by (simp only: of_int_le_iff)
    then have "of_int m * ulp \<le> of_int (500 * 2 ^ (52 - n)) * ulp"
      using ulp by (simp add: mult_right_mono)
    also have "\<dots> = 500" unfolding u p by simp
    finally show ?thesis .
  next
    case False
    define n where "n = binade_down a"
    have b: "a * 2 ^ n < 2" using binade_down_bounds [of a] a False by (simp add: n_def)
    have u: "ulp = 1 / (2 ^ n * 2 ^ 52)" using False by (simp add: ulp_def n_def)
    have "a / ulp = (a * 2 ^ n) * 2 ^ 52" unfolding u by simp
    also have "\<dots> \<le> 2 * 2 ^ 52" using b by simp
    also have "\<dots> = of_int (2 * 2 ^ 52)" by simp
    finally have "m \<le> 2 * 2 ^ 52" unfolding m_def by (rule round_half_even_le)
    then have "(of_int m :: rat) \<le> of_int (2 * 2 ^ 52)" by (simp only: of_int_le_iff)
    then have "of_int m * ulp \<le> of_int (2 * 2 ^ 52) * ulp"
      using ulp by (simp add: mult_right_mono)
    also have "\<dots> = 2 / 2 ^ n" unfolding u by simp
    also have "\<dots> \<le> 2" by (simp add: divide_le_eq)
    finally show ?thesis by simp
  qed
  with rd show ?thesis by simp
qed

lemma trunc_int_bound: "\<bar>q\<bar> \<le> of_int K \<Longrightarrow> \<bar>trunc_int q\<bar> \<le> K"
  by (auto simp: trunc_int_def abs_if floor_le_iff le_floor_iff ceiling_le_iff le_ceiling_iff split: if_splits) linarith+

lemma trunc_int_round_double_bound:
  "- 5 \<le> a \<Longrightarrow> a \<le> 5 \<Longrightarrow> \<bar>trunc_int (round_double (a * 100))\<bar> \<le> 500"
proof -
  assume "- 5 \<le> a" "a \<le> 5"
  then have "\<bar>a * 100\<bar> \<le> 500" by (simp add: abs_le_iff)
  then have "\<bar>round_double (a * 100)\<bar> \<le> of_int 500" using round_double_bound by simp
  then show ?thesis by (rule trunc_int_bound)
qed

lemma pad0_show_nat_3:
  assumes "k < 1000"
  shows "pad0 3 (show_nat k) =
           [digit_char (k div 100), digit_char (k div 10 mod 10), digit_char (k mod 10)]"
proof -
  consider "k < 10" | "10 \<le> k" "k < 100" | "100 \<le> k" by linarith
  then show ?thesis
  proof cases
    case 1
    then show ?thesis by (simp add: pad0_def digit_char_numerals numeral_2_eq_2)
  next
    case 2
    then have "k div 10 < 10" "\<not> k < 10" "k div 100 = 0" by simp_all
    then show ?thesis
      by (subst show_nat.simps) (simp add: pad0_def digit_char_numerals)
  next
    case 3
    have d: "k div 10 div 10 = k div 100" by (simp add: div_mult2_eq [symmetric])
    from 3 assms have n: "\<not> k < 10" "\<not> k div 10 < 10" "k div 10 div 10 < 10"
      by simp_all
    have "show_nat k = show_nat (k div 10) @ [digit_char (k mod 10)]"
      using n by (subst show_nat.simps) simp
    also have "show_nat (k div 10) = show_nat (k div 10 div 10) @ [digit_char (k div 10 mod 10)]"
      using n by (subst show_nat.simps) simp
    also have "show_nat (k div 10 div 10) = [digit_char (k div 10 div 10)]"
      using n by (subst show_nat.simps) simp
    finally show ?thesis by (simp add: pad0_def d)
  qed
qed

lemma fmt_plus_0d_4:
  assumes "\<bar>n\<bar> \<le> 999"
  shows "fmt_plus_0d 4 n =
           [if n < 0 then CHR ''-'' else CHR ''+'', digit_char (nat \<bar>n\<bar> div 100),
            digit_char (nat \<bar>n\<bar> div 10 mod 10), digit_char (nat \<bar>n\<bar> mod 10)]"
proof -
  have k: "nat \<bar>n\<bar> < 1000" using assms by simp
  have e: "fmt_plus_0d 4 n = (if n < 0 then CHR ''-'' else CHR ''+'') # pad0 3 (show_nat (nat \<bar>n\<bar>))"
    by (simp add: fmt_plus_0d_def abs_if)
  show ?thesis unfolding e pad0_show_nat_3 [OF k] by (rule refl)
qed


lemma setTrackingAdjustment_accepted:
  "\<not> 5 < adjustRA \<Longrightarrow> \<not> adjustRA < - 5 \<Longrightarrow>
   setTrackingAdjustment st adjustRA =
     (fst (fst (sendQuery st
                  ('':X41'' @ fmt_plus_0d 4 (trunc_int (round_double (adjustRA * 100))) @ ''#'')
                  (CHR ''#'') 0)),
      snd (sendQuery st
             ('':X41'' @ fmt_plus_0d 4 (trunc_int (round_double (adjustRA * 100))) @ ''#'')
             (CHR ''#'') 0))"
  by (auto simp: setTrackingAdjustment_def split: prod.splits)

lemma round_double_examples:
  "round_double 500 = 500" "round_double (- 500) = - 500"
  "round_double (3 / 10) = 5404319552844595 / 18014398509481984"
  "round_double (135107988821114875 / 4503599627370496) = 30"
  "round_double (- 25) = - 25" "round_double 7 = 7"
  "round_double (29 / 100) = 5224175567749775 / 18014398509481984"
  "round_double (130604389193744375 / 4503599627370496) = 8162774324609023 / 281474976710656"
  by code_simp+

text \<open>
  C6. \<open>setTrackingAdjustment\<close> returns failure for every value above 5 or below -5
  and leaves the driver untouched, so that nothing is written to the port. Every value
  from -5 to 5 is accepted: with a port that can be written, the call succeeds and writes
  one command, \<open>:X41\<close>, a sign, three decimal digits and \<open>#\<close>. The digits are those
  of the magnitude of \<open>n\<close>, zero-padded, and the sign is \<open>-\<close> exactly when
  \<open>n\<close> is negative, where \<open>n\<close> is the double product of the value and 100 with
  its fraction dropped; its magnitude is at most 500. For 5 and -5 the commands are
  \<open>:X41+500#\<close> and \<open>:X41-500#\<close>.
\<close>

theorem setTrackingAdjustment_range:
  "(5 < adjustRA \<or> adjustRA < - 5 \<longrightarrow> setTrackingAdjustment st adjustRA = (False, st)) \<and>
   (writable (PortFD st) \<and> - 5 \<le> adjustRA \<and> adjustRA \<le> 5 \<longrightarrow>
      (let n = trunc_int (round_double (adjustRA * 100))
       in \<bar>n\<bar> \<le> 500 \<and>
          fst (setTrackingAdjustment st adjustRA) \<and>
          tx (PortFD (snd (setTrackingAdjustment st adjustRA))) =
            tx (PortFD st) @
              ['':X41'' @
               [if n < 0 then CHR ''-'' else CHR ''+'', digit_char (nat \<bar>n\<bar> div 100),
                digit_char (nat \<bar>n\<bar> div 10 mod 10), digit_char (nat \<bar>n\<bar> mod 10)] @
               ''#''])) \<and>
   (writable (PortFD st) \<longrightarrow>
      fst (setTrackingAdjustment st 5) \<and>
      tx (PortFD (snd (setTrackingAdjustment st 5))) = tx (PortFD st) @ ['':X41+500#''] \<and>
      fst (setTrackingAdjustment st (- 5)) \<and>
      tx (PortFD (snd (setTrackingAdjustment st (- 5)))) = tx (PortFD st) @ ['':X41-500#''])"
proof -
  have rej: "5 < adjustRA \<or> adjustRA < - 5 \<longrightarrow> setTrackingAdjustment st adjustRA = (False, st)"
    by (auto simp: setTrackingAdjustment_def)
  have enc: "\<bar>trunc_int (round_double (a * 100))\<bar> \<le> 500 \<and>
      fst (setTrackingAdjustment st a) \<and>
      tx (PortFD (snd (setTrackingAdjustment st a))) =
        tx (PortFD st) @
          ['':X41'' @
           [if trunc_int (round_double (a * 100)) < 0 then CHR ''-'' else CHR ''+'',
            digit_char (nat \<bar>trunc_int (round_double (a * 100))\<bar> div 100),
            digit_char (nat \<bar>trunc_int (round_double (a * 100))\<bar> div 10 mod 10),
            digit_char (nat \<bar>trunc_int (round_double (a * 100))\<bar> mod 10)] @
           ''#'']"
    if w: "writable (PortFD st)" and r: "- 5 \<le> a" "a \<le> 5" for a
  proof -
    define n where "n = trunc_int (round_double (a * 100))"
    have b: "\<bar>n\<bar> \<le> 500" unfolding n_def using r by (rule trunc_int_round_double_bound)
    then have f: "fmt_plus_0d 4 n =
           [if n < 0 then CHR ''-'' else CHR ''+'', digit_char (nat \<bar>n\<bar> div 100),
            digit_char (nat \<bar>n\<bar> div 10 mod 10), digit_char (nat \<bar>n\<bar> mod 10)]"
      by (intro fmt_plus_0d_4) simp
    have a: "\<not> 5 < a" "\<not> a < - 5" using r by simp_all
    from sendQuery_writes [OF w, of "'':X41'' @ fmt_plus_0d 4 n @ ''#''" "CHR ''#''" 0] b
    show ?thesis
      unfolding setTrackingAdjustment_accepted [OF a] n_def [symmetric] f by simp
  qed
  have acc: "fst (setTrackingAdjustment st 5) \<and>
      tx (PortFD (snd (setTrackingAdjustment st 5))) = tx (PortFD st) @ ['':X41+500#''] \<and>
      fst (setTrackingAdjustment st (- 5)) \<and>
      tx (PortFD (snd (setTrackingAdjustment st (- 5)))) = tx (PortFD st) @ ['':X41-500#'']"
    if w: "writable (PortFD st)"
  proof -
    have p: "trunc_int 500 = 500" and n: "trunc_int (- 500) = - 500"
      by (simp_all add: trunc_int_def)
    from sendQuery_writes [OF w, of "'':X41+500#''" "CHR ''#''" 0]
         sendQuery_writes [OF w, of "'':X41-500#''" "CHR ''#''" 0]
    show ?thesis
      by (simp add: setTrackingAdjustment_accepted round_double_examples p n fmt_plus_500)
  qed
  from rej enc acc show ?thesis unfolding Let_def by blast
qed

theorem setTrackingAdjustment_range_witness:
  "(5::rat) < 501 / 100 \<and> (- 501 / 100 :: rat) < - 5 \<and>
   setTrackingAdjustment idle_driver (501 / 100) = (False, idle_driver) \<and>
   setTrackingAdjustment idle_driver (- 501 / 100) = (False, idle_driver) \<and>
   writable (PortFD idle_driver) \<and>
   fst (setTrackingAdjustment idle_driver (round_double (3 / 10))) \<and>
   tx (PortFD (snd (setTrackingAdjustment idle_driver (round_double (3 / 10))))) =
     ['':X41+030#''] \<and>
   fst (setTrackingAdjustment idle_driver (round_double (29 / 100))) \<and>
   tx (PortFD (snd (setTrackingAdjustment idle_driver (round_double (29 / 100))))) =
     ['':X41+028#''] \<and>
   fst (setTrackingAdjustment idle_driver (- 1 / 4)) \<and>
   tx (PortFD (snd (setTrackingAdjustment idle_driver (- 1 / 4)))) = ['':X41-025#''] \<and>
   fst (setTrackingAdjustment idle_driver (7 / 100)) \<and>
   tx (PortFD (snd (setTrackingAdjustment idle_driver (7 / 100)))) = ['':X41+007#''] \<and>
   fst (setTrackingAdjustment idle_driver 5) \<and>
   tx (PortFD (snd (setTrackingAdjustment idle_driver 5))) = ['':X41+500#''] \<and>
   fst (setTrackingAdjustment idle_driver (- 5)) \<and>
   tx (PortFD (snd (setTrackingAdjustment idle_driver (- 5)))) = ['':X41-500#'']"
proof -
  have w: "writable (PortFD idle_driver)" and t: "tx (PortFD idle_driver) = []"
    by (simp_all add: idle_driver_def idle_port_def)
  have r: "(- 5 :: rat) \<le> 5404319552844595 / 18014398509481984"
    "(5404319552844595 / 18014398509481984 :: rat) \<le> 5"
    "(- 5 :: rat) \<le> 5224175567749775 / 18014398509481984"
    "(5224175567749775 / 18014398509481984 :: rat) \<le> 5"
    by simp_all
  have v: "trunc_int 30 = 30" "trunc_int (- 25) = - 25" "trunc_int 7 = 7"
    "trunc_int (8162774324609023 / 281474976710656) = 28"
    by (simp_all add: trunc_int_def floor_eq_iff)
  show ?thesis
    using setTrackingAdjustment_range [of "501 / 100" idle_driver]
          setTrackingAdjustment_range [of "- 501 / 100" idle_driver]
          setTrackingAdjustment_range [of "round_double (3 / 10)" idle_driver]
          setTrackingAdjustment_range [of "round_double (29 / 100)" idle_driver]
          setTrackingAdjustment_range [of "- 1 / 4" idle_driver]
          setTrackingAdjustment_range [of "7 / 100" idle_driver] w t r
    by (simp add: round_double_examples v digit_char_numerals Let_def)
qed

subsection \<open>Site longitude\<close>

lemma normalize_longitude_once:
  "normalize_longitude longitude =
     (if 180 < longitude then longitude - 360
      else if longitude < - 180 then longitude + 360
      else longitude)"
  by (simp add: normalize_longitude_def Let_def)

lemma pad0_show_nat_2:
  assumes "k < 100"
  shows "pad0 2 (show_nat k) = [digit_char (k div 10), digit_char (k mod 10)]"
proof (cases "k < 10")
  case True
  then show ?thesis by (simp add: pad0_def digit_char_numerals)
next
  case False
  with assms have n: "\<not> k < 10" "k div 10 < 10" by simp_all
  have "show_nat k = show_nat (k div 10) @ [digit_char (k mod 10)]"
    using n by (subst show_nat.simps) simp
  also have "show_nat (k div 10) = [digit_char (k div 10)]"
    using n by (subst show_nat.simps) simp
  finally show ?thesis by (simp add: pad0_def)
qed

lemma fmt_0d_2:
  assumes "0 \<le> m" "m < 60"
  shows "fmt_0d 2 m = [digit_char (nat m div 10), digit_char (nat m mod 10)]"
proof -
  have k: "nat m < 100" using assms by simp
  have e: "fmt_0d 2 m = pad0 2 (show_nat (nat m))"
    using assms by (simp add: fmt_0d_def)
  show ?thesis unfolding e pad0_show_nat_2 [OF k] by (rule refl)
qed

lemma fmt_0d_3_zero: "fmt_0d 3 0 = ''000''"
  by (simp add: fmt_0d_def pad0_def digit_char_numerals numeral_3_eq_3)

lemma longitude_command_zero_degrees:
  assumes "0 \<le> m" "m < 60" "0 \<le> s" "s < 60"
  shows "longitude_command (0, m, s) =
           '':Sg+000*'' @ [digit_char (nat m div 10), digit_char (nat m mod 10)] @ '':'' @
             [digit_char (nat s div 10), digit_char (nat s mod 10)] @ ''#''"
proof -
  have n: "\<not> ((0::int) < 0 \<or> m < 0 \<or> s < 0)" using assms by simp
  show ?thesis
    unfolding longitude_command_def prod.case if_not_P [OF n]
      fmt_0d_2 [OF assms(1,2)] fmt_0d_2 [OF assms(3,4)] fmt_0d_3_zero
    by simp
qed

text \<open>
  C7. The encoding of a longitude between -1 and 0 loses the sign. Whenever
  \<open>getSexComponents\<close> returns 0 degrees with minutes and seconds from 0 to 59 for
  the wrapped longitude, \<open>setSiteLongitude\<close> writes the form
  \<open>:Sg+%03d*%02d:%02d#\<close>, that is \<open>:Sg+000*\<close>, the two digits of the minutes,
  \<open>:\<close>, the two digits of the seconds and \<open>#\<close>, whatever the sign of the
  longitude: the branch tests the three integers, and an integer 0 carries no sign. The
  longitude 359.5 is wrapped to -0.5, whose components are 0, 30 and 0, and is sent as
  \<open>:Sg+000*30:00#\<close>, the command of the longitude 0.5. \<open>setObjectCoords\<close>
  tests this case for the declination (\<open>!d && dec < 0\<close>); \<open>setSiteLongitude\<close>
  does not.
\<close>

theorem setSiteLongitude_negative_zero:
  assumes "writable (PortFD st)"
    and "getSexComponents (normalize_longitude longitude) = (0, m, s)"
    and "0 \<le> m" "m < 60" "0 \<le> s" "s < 60"
  shows "fst (setSiteLongitude getSexComponents tmo st longitude) \<and>
         tx (PortFD (snd (setSiteLongitude getSexComponents tmo st longitude))) =
           tx (PortFD st) @
             ['':Sg+000*'' @ [digit_char (nat m div 10), digit_char (nat m mod 10)] @ '':'' @
                [digit_char (nat s div 10), digit_char (nat s mod 10)] @ ''#'']"
proof -
  define cmd where "cmd = longitude_command (0, m, s)"
  have c: "setSiteLongitude getSexComponents tmo st longitude =
      (fst (fst (sendQuery st cmd (CHR ''#'') tmo)), snd (sendQuery st cmd (CHR ''#'') tmo))"
    by (auto simp: setSiteLongitude_def assms(2) cmd_def split: prod.splits)
  from sendQuery_writes [OF assms(1), of cmd "CHR ''#''" tmo]
  show ?thesis
    unfolding c by (simp add: cmd_def longitude_command_zero_degrees [OF assms(3-6)])
qed

theorem setSiteLongitude_negative_zero_witness:
  "writable (PortFD idle_driver) \<and>
   normalize_longitude (719 / 2) = - 1 / 2 \<and>
   (\<lambda>q::rat. (if q < 0 then - \<lfloor>\<bar>q\<bar>\<rfloor> else \<lfloor>\<bar>q\<bar>\<rfloor>,
                 \<lfloor>(\<bar>q\<bar> - of_int \<lfloor>\<bar>q\<bar>\<rfloor>) * 60\<rfloor>, 0 :: int)) (normalize_longitude (719 / 2)) =
     (0, 30, 0) \<and>
   (\<lambda>q::rat. (if q < 0 then - \<lfloor>\<bar>q\<bar>\<rfloor> else \<lfloor>\<bar>q\<bar>\<rfloor>,
                 \<lfloor>(\<bar>q\<bar> - of_int \<lfloor>\<bar>q\<bar>\<rfloor>) * 60\<rfloor>, 0 :: int)) (normalize_longitude (1 / 2)) =
     (0, 30, 0) \<and>
   fst (setSiteLongitude (\<lambda>q::rat. (if q < 0 then - \<lfloor>\<bar>q\<bar>\<rfloor> else \<lfloor>\<bar>q\<bar>\<rfloor>,
                 \<lfloor>(\<bar>q\<bar> - of_int \<lfloor>\<bar>q\<bar>\<rfloor>) * 60\<rfloor>, 0 :: int))
          2 idle_driver (719 / 2)) \<and>
   tx (PortFD (snd (setSiteLongitude
                      (\<lambda>q::rat. (if q < 0 then - \<lfloor>\<bar>q\<bar>\<rfloor> else \<lfloor>\<bar>q\<bar>\<rfloor>,
                 \<lfloor>(\<bar>q\<bar> - of_int \<lfloor>\<bar>q\<bar>\<rfloor>) * 60\<rfloor>, 0 :: int))
                      2 idle_driver (719 / 2)))) =
     ['':Sg+000*30:00#''] \<and>
   tx (PortFD (snd (setSiteLongitude
                      (\<lambda>q::rat. (if q < 0 then - \<lfloor>\<bar>q\<bar>\<rfloor> else \<lfloor>\<bar>q\<bar>\<rfloor>,
                 \<lfloor>(\<bar>q\<bar> - of_int \<lfloor>\<bar>q\<bar>\<rfloor>) * 60\<rfloor>, 0 :: int))
                      2 idle_driver (1 / 2)))) =
     ['':Sg+000*30:00#'']"
proof -
  define g where "g = (\<lambda>q::rat. (if q < 0 then - \<lfloor>\<bar>q\<bar>\<rfloor> else \<lfloor>\<bar>q\<bar>\<rfloor>,
                 \<lfloor>(\<bar>q\<bar> - of_int \<lfloor>\<bar>q\<bar>\<rfloor>) * 60\<rfloor>, 0 :: int))"
  have w: "writable (PortFD idle_driver)" and t: "tx (PortFD idle_driver) = []"
    by (simp_all add: idle_driver_def idle_port_def)
  have n: "normalize_longitude (719 / 2) = - 1 / 2" "normalize_longitude (1 / 2) = 1 / 2"
    by (simp_all add: normalize_longitude_def)
  have f: "\<lfloor>1 / 2 :: rat\<rfloor> = 0"
    by (simp add: floor_eq_iff)
  have g1: "g (normalize_longitude (719 / 2)) = (0, 30, 0)"
    and g2: "g (normalize_longitude (1 / 2)) = (0, 30, 0)"
    by (simp_all add: n g_def f)
  have "writable (PortFD idle_driver) \<and>
   normalize_longitude (719 / 2) = - 1 / 2 \<and>
   g (normalize_longitude (719 / 2)) = (0, 30, 0) \<and>
   g (normalize_longitude (1 / 2)) = (0, 30, 0) \<and>
   fst (setSiteLongitude g 2 idle_driver (719 / 2)) \<and>
   tx (PortFD (snd (setSiteLongitude g 2 idle_driver (719 / 2)))) = ['':Sg+000*30:00#''] \<and>
   tx (PortFD (snd (setSiteLongitude g 2 idle_driver (1 / 2)))) = ['':Sg+000*30:00#'']"
    using setSiteLongitude_negative_zero
            [where st = idle_driver and getSexComponents = g and longitude = "719 / 2"
               and m = 30 and s = 0 and tmo = 2, OF w g1]
          setSiteLongitude_negative_zero
            [where st = idle_driver and getSexComponents = g and longitude = "1 / 2"
               and m = 30 and s = 0 and tmo = 2, OF w g2]
          w n(1) g1 g2 t
    by (simp add: digit_char_numerals)
  then show ?thesis unfolding g_def .
qed

subsection \<open>The poll cycle\<close>

lemma queries_only_iff:
  "queries_only st s \<longleftrightarrow>
     (\<exists>p m t sl n. s = st\<lparr>PortFD := p, CurrentMotorsState := m, CurrentTrackMode := t,
                           CurrentSlewRate := sl, delays := n\<rparr>)"
proof
  assume "queries_only st s"
  then have "s = st\<lparr>PortFD := PortFD s, CurrentMotorsState := CurrentMotorsState s,
              CurrentTrackMode := CurrentTrackMode s, CurrentSlewRate := CurrentSlewRate s,
              delays := delays s\<rparr>"
    by (simp add: queries_only_def)
  then show "\<exists>p m t sl n. s = st\<lparr>PortFD := p, CurrentMotorsState := m, CurrentTrackMode := t,
                           CurrentSlewRate := sl, delays := n\<rparr>"
    by blast
next
  assume "\<exists>p m t sl n. s = st\<lparr>PortFD := p, CurrentMotorsState := m, CurrentTrackMode := t,
                           CurrentSlewRate := sl, delays := n\<rparr>"
  then show "queries_only st s"
    by (auto simp: queries_only_def)
qed

lemma queries_only_refl: "queries_only st st"
  by (simp add: queries_only_def)

lemma queries_only_trans:
  "queries_only a b \<Longrightarrow> queries_only b c \<Longrightarrow> queries_only a c"
  unfolding queries_only_iff by (elim exE, simp) blast

lemma queries_only_position:
  "queries_only st s \<Longrightarrow> published_position s = published_position st"
  unfolding queries_only_iff by (auto simp: published_position_def)

lemma sendQuery_queries_only: "queries_only st (snd (sendQuery st cmd e w))"
  unfolding queries_only_iff using sendQuery_changes [of st cmd e w] by blast

lemma getMotorStatus_queries_only:
  "getMotorStatus st tmo = (r, st1) \<Longrightarrow> queries_only st st1"
  using sendQuery_queries_only [of st "'':X34#''" "CHR ''#''" tmo]
  by (auto simp: getMotorStatus_def split: prod.splits if_splits list.splits sval.splits)

lemma getParkHomeStatus_queries_only:
  "getParkHomeStatus st tmo status = (r, st1) \<Longrightarrow> queries_only st st1"
  using sendQuery_queries_only [of st "'':X38#''" "CHR ''#''" tmo]
  by (auto simp: getParkHomeStatus_def split: prod.splits if_splits list.splits sval.splits)

lemma getTrackingAdjustment_position:
  "getTrackingAdjustment st tmo = (r, st1) \<Longrightarrow>
   published_position st1 = published_position st"
  using sendQuery_published_position [of st "'':X42#''" "CHR ''#''" tmo]
  by (auto simp: getTrackingAdjustment_def split: prod.splits if_splits list.splits sval.splits)

lemma getEqCoordinates_position:
  "getEqCoordinates st tmo = (r, st1) \<Longrightarrow> published_position st1 = published_position st"
  using sendQuery_published_position [of st "'':X590#''" "CHR ''#''" tmo]
  by (auto simp: getEqCoordinates_def split: prod.splits if_splits list.splits sval.splits)

lemma park_motor_evaluation_position:
  assumes "park_motor_evaluation Telescope_SetParked s parkHomeStatus x y = (nts, st4)"
  shows "(TrackState s \<noteq> SCOPE_PARKED \<and> nts \<noteq> SCOPE_PARKED \<longrightarrow>
            published_position st4 = published_position s) \<and>
         (TrackState s \<noteq> SCOPE_PARKED \<and> nts = SCOPE_PARKED \<longrightarrow>
            published_position st4 = published_position (Telescope_SetParked s True)) \<and>
         (TrackState s = SCOPE_PARKED \<longrightarrow>
            published_position st4 = published_position s \<or>
            published_position st4 = published_position (Telescope_SetParked s False))"
  using assms
  by (auto simp: park_motor_evaluation_def SetParked_def published_position_def Let_def
           split: if_splits)

lemma publish_tracking_adjustment_position:
  "published_position (publish_tracking_adjustment st tmo) = published_position st"
proof -
  obtain r st1 where g: "getTrackingAdjustment st tmo = (r, st1)"
    by (cases "getTrackingAdjustment st tmo")
  from getTrackingAdjustment_position [OF g] g show ?thesis
    by (cases r) (simp_all add: publish_tracking_adjustment_def published_position_def)
qed

lemma poll_after_motor_position:
  assumes "(case getParkHomeStatus sa tmo [] of
              (None, st2) \<Rightarrow> Inl st2
            | (Some parkHomeStatus, st2) \<Rightarrow>
                let (x, y) = (if parkHomeStatus = [] then xy else overflow parkHomeStatus xy);
                    (newTrackState, st3) =
                      park_motor_evaluation Telescope_SetParked st2 parkHomeStatus x y
                in Inr (newTrackState, publish_tracking_adjustment st3 tmo)) = Inr (nts, st4)"
  shows "\<exists>s. queries_only sa s \<and>
         (TrackState s \<noteq> SCOPE_PARKED \<and> nts \<noteq> SCOPE_PARKED \<longrightarrow>
            published_position st4 = published_position s) \<and>
         (TrackState s \<noteq> SCOPE_PARKED \<and> nts = SCOPE_PARKED \<longrightarrow>
            published_position st4 = published_position (Telescope_SetParked s True)) \<and>
         (TrackState s = SCOPE_PARKED \<longrightarrow>
            published_position st4 = published_position s \<or>
            published_position st4 = published_position (Telescope_SetParked s False))"
proof -
  obtain ph sb where g3: "getParkHomeStatus sa tmo [] = (ph, sb)"
    by (cases "getParkHomeStatus sa tmo []")
  from assms g3 obtain parkHomeStatus where ph: "ph = Some parkHomeStatus"
    by (cases ph) auto
  obtain x y where xy: "(if parkHomeStatus = [] then xy else overflow parkHomeStatus xy) = (x, y)"
    by (cases "if parkHomeStatus = [] then xy else overflow parkHomeStatus xy")
  obtain n st3 where e: "park_motor_evaluation Telescope_SetParked sb parkHomeStatus x y = (n, st3)"
    by (cases "park_motor_evaluation Telescope_SetParked sb parkHomeStatus x y")
  from assms g3 ph xy e have s4: "st4 = publish_tracking_adjustment st3 tmo" and n: "n = nts"
    by simp_all
  from park_motor_evaluation_position [OF e] s4 n
  have "(TrackState sb \<noteq> SCOPE_PARKED \<and> nts \<noteq> SCOPE_PARKED \<longrightarrow>
            published_position st4 = published_position sb) \<and>
         (TrackState sb \<noteq> SCOPE_PARKED \<and> nts = SCOPE_PARKED \<longrightarrow>
            published_position st4 = published_position (Telescope_SetParked sb True)) \<and>
         (TrackState sb = SCOPE_PARKED \<longrightarrow>
            published_position st4 = published_position sb \<or>
            published_position st4 = published_position (Telescope_SetParked sb False))"
    by (simp add: publish_tracking_adjustment_position)
  with getParkHomeStatus_queries_only [OF g3] show ?thesis by blast
qed

lemma poll_status_position:
  assumes "poll_status Telescope_SetParked overflow st tmo = Inr (nts, st4)"
  shows "\<exists>s. queries_only st s \<and>
         (TrackState s \<noteq> SCOPE_PARKED \<and> nts \<noteq> SCOPE_PARKED \<longrightarrow>
            published_position st4 = published_position s) \<and>
         (TrackState s \<noteq> SCOPE_PARKED \<and> nts = SCOPE_PARKED \<longrightarrow>
            published_position st4 = published_position (Telescope_SetParked s True)) \<and>
         (TrackState s = SCOPE_PARKED \<longrightarrow>
            published_position st4 = published_position s \<or>
            published_position st4 = published_position (Telescope_SetParked s False))"
proof -
  obtain m1 s1 where g1: "getMotorStatus st tmo = (m1, s1)"
    by (cases "getMotorStatus st tmo")
  obtain m2 s2 where g2: "getMotorStatus s1 tmo = (m2, s2)"
    by (cases "getMotorStatus s1 tmo")
  note p1 = getMotorStatus_queries_only [OF g1]
  note p2 = getMotorStatus_queries_only [OF g2]
  have later: "\<exists>s. queries_only st s \<and>
         (TrackState s \<noteq> SCOPE_PARKED \<and> nts \<noteq> SCOPE_PARKED \<longrightarrow>
            published_position st4 = published_position s) \<and>
         (TrackState s \<noteq> SCOPE_PARKED \<and> nts = SCOPE_PARKED \<longrightarrow>
            published_position st4 = published_position (Telescope_SetParked s True)) \<and>
         (TrackState s = SCOPE_PARKED \<longrightarrow>
            published_position st4 = published_position s \<or>
            published_position st4 = published_position (Telescope_SetParked s False))"
    if q: "queries_only st sa"
      and c: "(case getParkHomeStatus sa tmo [] of
              (None, st2) \<Rightarrow> Inl st2
            | (Some parkHomeStatus, st2) \<Rightarrow>
                let (x, y) = (if parkHomeStatus = [] then xy else overflow parkHomeStatus xy);
                    (newTrackState, st3) =
                      park_motor_evaluation Telescope_SetParked st2 parkHomeStatus x y
                in Inr (newTrackState, publish_tracking_adjustment st3 tmo)) = Inr (nts, st4)"
    for sa xy
  proof -
    from poll_after_motor_position
           [where sa = sa and xy = xy and overflow = overflow
              and Telescope_SetParked = Telescope_SetParked and tmo = tmo, OF c] obtain s where s: "queries_only sa s"
      and d: "(TrackState s \<noteq> SCOPE_PARKED \<and> nts \<noteq> SCOPE_PARKED \<longrightarrow>
            published_position st4 = published_position s) \<and>
         (TrackState s \<noteq> SCOPE_PARKED \<and> nts = SCOPE_PARKED \<longrightarrow>
            published_position st4 = published_position (Telescope_SetParked s True)) \<and>
         (TrackState s = SCOPE_PARKED \<longrightarrow>
            published_position st4 = published_position s \<or>
            published_position st4 = published_position (Telescope_SetParked s False))"
      by blast
    from q s have "queries_only st s" by (rule queries_only_trans)
    with d show ?thesis by blast
  qed
  show ?thesis
  proof (cases m1)
    case (Some xy)
    from assms have "(case getParkHomeStatus s1 tmo [] of
              (None, st2) \<Rightarrow> Inl st2
            | (Some parkHomeStatus, st2) \<Rightarrow>
                let (x, y) = (if parkHomeStatus = [] then xy else overflow parkHomeStatus xy);
                    (newTrackState, st3) =
                      park_motor_evaluation Telescope_SetParked st2 parkHomeStatus x y
                in Inr (newTrackState, publish_tracking_adjustment st3 tmo)) = Inr (nts, st4)"
      by (simp add: poll_status_def g1 Some)
    with p1 show ?thesis by (rule later)
  next
    case None
    show ?thesis
    proof (cases m2)
      case None
      with \<open>m1 = None\<close> assms show ?thesis
        by (simp add: poll_status_def g1 g2)
    next
      case (Some xy)
      from assms have "(case getParkHomeStatus s2 tmo [] of
              (None, st2) \<Rightarrow> Inl st2
            | (Some parkHomeStatus, st2) \<Rightarrow>
                let (x, y) = (if parkHomeStatus = [] then xy else overflow parkHomeStatus xy);
                    (newTrackState, st3) =
                      park_motor_evaluation Telescope_SetParked st2 parkHomeStatus x y
                in Inr (newTrackState, publish_tracking_adjustment st3 tmo)) = Inr (nts, st4)"
        by (simp add: poll_status_def g1 g2 \<open>m1 = None\<close> Some)
      with queries_only_trans [OF p1 p2] show ?thesis by (rule later)
    qed
  qed
qed

lemma queries_only_TrackState: "queries_only st s \<Longrightarrow> TrackState s = TrackState st"
  using queries_only_position [of st s] by (simp add: published_position_def)

text \<open>
  C2, as the code has it. When the poll cycle gets as far as the coordinates and
  \<open>getEqCoordinates\<close> fails, because the query cannot be sent or because the reply
  does not decode, \<open>ReadScopeStatus\<close> returns failure without assigning the new
  track state, the coordinates or the pier side. The track state, the coordinates
  (current and published) and the pier side are then as they were before the cycle,
  unless the cycle has called \<open>SetParked\<close>; then they are as
  \<open>INDI::Telescope::SetParked\<close> left them, called on a driver that differed from
  the one before the cycle only in what the queries write. For a mount that was not
  parked the call is made, with the flag true, exactly when the new track state is
  parked; for a mount that was parked the call, if made, has the flag false. The
  tracking adjustment and its state, the effects of \<open>SetParked\<close> and a pending
  goto-home completion are published before the coordinates are asked for, and the
  telegrams met on the way are applied: the failed cycle does not undo them.
\<close>

theorem ReadScopeStatus_coordinates_fail:
  assumes "connected st" and "\<not> simulation st"
    and "poll_status Telescope_SetParked overflow st tmo = Inr (newTrackState, st4)"
    and "getEqCoordinates st4 tmo = (None, st5)"
  shows "ReadScopeStatus mountSim Telescope_SetParked overflow tmo answer0 st = (False, st5) \<and>
         (TrackState st \<noteq> SCOPE_PARKED \<and> newTrackState \<noteq> SCOPE_PARKED \<longrightarrow>
            published_position st5 = published_position st) \<and>
         (TrackState st \<noteq> SCOPE_PARKED \<and> newTrackState = SCOPE_PARKED \<longrightarrow>
            (\<exists>s. queries_only st s \<and>
                 published_position st5 = published_position (Telescope_SetParked s True))) \<and>
         (TrackState st = SCOPE_PARKED \<longrightarrow>
            published_position st5 = published_position st \<or>
            (\<exists>s. queries_only st s \<and>
                 published_position st5 = published_position (Telescope_SetParked s False)))"
proof -
  have r: "ReadScopeStatus mountSim Telescope_SetParked overflow tmo answer0 st = (False, st5)"
    using assms by (simp add: ReadScopeStatus_def publish_coordinates_def)
  from poll_status_position [OF assms(3)] obtain s where s: "queries_only st s"
    and d: "(TrackState s \<noteq> SCOPE_PARKED \<and> newTrackState \<noteq> SCOPE_PARKED \<longrightarrow>
            published_position st4 = published_position s) \<and>
         (TrackState s \<noteq> SCOPE_PARKED \<and> newTrackState = SCOPE_PARKED \<longrightarrow>
            published_position st4 = published_position (Telescope_SetParked s True)) \<and>
         (TrackState s = SCOPE_PARKED \<longrightarrow>
            published_position st4 = published_position s \<or>
            published_position st4 = published_position (Telescope_SetParked s False))"
    by blast
  have t: "TrackState s = TrackState st"
    using s by (rule queries_only_TrackState)
  have q: "published_position s = published_position st"
    using s by (rule queries_only_position)
  have p: "published_position st5 = published_position st4"
    by (rule getEqCoordinates_position [OF assms(4)])
  from d have "(TrackState st \<noteq> SCOPE_PARKED \<and> newTrackState \<noteq> SCOPE_PARKED \<longrightarrow>
            published_position st5 = published_position s) \<and>
         (TrackState st \<noteq> SCOPE_PARKED \<and> newTrackState = SCOPE_PARKED \<longrightarrow>
            published_position st5 = published_position (Telescope_SetParked s True)) \<and>
         (TrackState st = SCOPE_PARKED \<longrightarrow>
            published_position st5 = published_position s \<or>
            published_position st5 = published_position (Telescope_SetParked s False))"
    unfolding t p .
  then have "(TrackState st \<noteq> SCOPE_PARKED \<and> newTrackState \<noteq> SCOPE_PARKED \<longrightarrow>
            published_position st5 = published_position st) \<and>
         (TrackState st \<noteq> SCOPE_PARKED \<and> newTrackState = SCOPE_PARKED \<longrightarrow>
            (\<exists>s. queries_only st s \<and>
                 published_position st5 = published_position (Telescope_SetParked s True))) \<and>
         (TrackState st = SCOPE_PARKED \<longrightarrow>
            published_position st5 = published_position st \<or>
            (\<exists>s. queries_only st s \<and>
                 published_position st5 = published_position (Telescope_SetParked s False)))"
    unfolding q using s by blast
  with r show ?thesis by simp
qed

text \<open>
  Three example cycles. The instance of \<open>INDI::Telescope::SetParked\<close> records the
  flag and sets the track state to parked or idle, and the write past the buffer leaves
  \<open>x\<close> and \<open>y\<close> alone. In the first cycle a mount that was parking answers the
  motor, park and tracking adjustment queries, reports itself parked, and sends a
  coordinate reply that does not decode. In the second the port takes three writes and
  refuses the fourth, the coordinate query. In the third a mount that was parked reports
  itself unparked and stays silent on the coordinates.
\<close>

lemma example_park_poll:
  "poll_status
     (\<lambda>s b. s\<lparr>TrackState := (if b then SCOPE_PARKED else SCOPE_IDLE), IsParked := b\<rparr>)
     (\<lambda>tok xy. xy)
     ((with_line [(1, ''m00#''), (1, ''p2#''), (1, ''or0000#''), (1, ''RD1#'')])
        \<lparr>TrackState := SCOPE_PARKING\<rparr>) 2 =
   Inr (SCOPE_PARKED,
        idle_driver
          \<lparr>PortFD := \<lparr>rx = [(1, ''RD1#'')], tx_limit = None,
                      tx = ['':X34#'', '':X38#'', '':X42#''],
                      reads = [(CHR ''#'', 0), (CHR ''#'', 2), (CHR ''#'', 0),
                               (CHR ''#'', 0), (CHR ''#'', 2), (CHR ''#'', 0),
                               (CHR ''#'', 0), (CHR ''#'', 2), (CHR ''#'', 0)]\<rparr>,
           TrackState := SCOPE_PARKED, IsParked := True,
           TrackingAdjustmentNP_s := IPS_OK, delays := 3\<rparr>)"
  by code_simp

lemma example_park_coordinates:
  "getEqCoordinates
     (idle_driver
          \<lparr>PortFD := \<lparr>rx = [(1, ''RD1#'')], tx_limit = None,
                      tx = ['':X34#'', '':X38#'', '':X42#''],
                      reads = [(CHR ''#'', 0), (CHR ''#'', 2), (CHR ''#'', 0),
                               (CHR ''#'', 0), (CHR ''#'', 2), (CHR ''#'', 0),
                               (CHR ''#'', 0), (CHR ''#'', 2), (CHR ''#'', 0)]\<rparr>,
           TrackState := SCOPE_PARKED, IsParked := True,
           TrackingAdjustmentNP_s := IPS_OK, delays := 3\<rparr>) 2 =
   (None,
    idle_driver
          \<lparr>PortFD := \<lparr>rx = [], tx_limit = None,
                      tx = ['':X34#'', '':X38#'', '':X42#'', '':X590#''],
                      reads = [(CHR ''#'', 0), (CHR ''#'', 2), (CHR ''#'', 0),
                               (CHR ''#'', 0), (CHR ''#'', 2), (CHR ''#'', 0),
                               (CHR ''#'', 0), (CHR ''#'', 2), (CHR ''#'', 0),
                               (CHR ''#'', 0), (CHR ''#'', 2), (CHR ''#'', 0)]\<rparr>,
           TrackState := SCOPE_PARKED, IsParked := True,
           TrackingAdjustmentNP_s := IPS_OK, delays := 4\<rparr>)"
  by code_simp

lemma example_refused_poll:
  "poll_status
     (\<lambda>s b. s\<lparr>TrackState := (if b then SCOPE_PARKED else SCOPE_IDLE), IsParked := b\<rparr>)
     (\<lambda>tok xy. xy)
     (idle_driver\<lparr>PortFD := \<lparr>rx = [(1, ''m10#''), (1, ''p0#''), (1, ''or0123#'')],
                               tx_limit = Some 3, tx = [], reads = []\<rparr>\<rparr>) 2 =
   Inr (SCOPE_TRACKING,
        idle_driver
          \<lparr>PortFD := \<lparr>rx = [], tx_limit = Some 3,
                      tx = ['':X34#'', '':X38#'', '':X42#''],
                      reads = [(CHR ''#'', 0), (CHR ''#'', 2), (CHR ''#'', 0),
                               (CHR ''#'', 0), (CHR ''#'', 2), (CHR ''#'', 0),
                               (CHR ''#'', 0), (CHR ''#'', 2), (CHR ''#'', 0)]\<rparr>,
           TrackingAdjustment_value := 123 / 100,
           TrackingAdjustmentNP_s := IPS_OK, delays := 3\<rparr>)"
  by code_simp

lemma example_refused_coordinates:
  "getEqCoordinates
     (idle_driver
          \<lparr>PortFD := \<lparr>rx = [], tx_limit = Some 3,
                      tx = ['':X34#'', '':X38#'', '':X42#''],
                      reads = [(CHR ''#'', 0), (CHR ''#'', 2), (CHR ''#'', 0),
                               (CHR ''#'', 0), (CHR ''#'', 2), (CHR ''#'', 0),
                               (CHR ''#'', 0), (CHR ''#'', 2), (CHR ''#'', 0)]\<rparr>,
           TrackingAdjustment_value := 123 / 100,
           TrackingAdjustmentNP_s := IPS_OK, delays := 3\<rparr>) 2 =
   (None,
    idle_driver
          \<lparr>PortFD := \<lparr>rx = [], tx_limit = Some 3,
                      tx = ['':X34#'', '':X38#'', '':X42#''],
                      reads = [(CHR ''#'', 0), (CHR ''#'', 2), (CHR ''#'', 0),
                               (CHR ''#'', 0), (CHR ''#'', 2), (CHR ''#'', 0),
                               (CHR ''#'', 0), (CHR ''#'', 2), (CHR ''#'', 0),
                               (CHR ''#'', 0)]\<rparr>,
           TrackingAdjustment_value := 123 / 100,
           TrackingAdjustmentNP_s := IPS_OK, delays := 4\<rparr>)"
  by code_simp

lemma example_unpark_poll:
  "poll_status
     (\<lambda>s b. s\<lparr>TrackState := (if b then SCOPE_PARKED else SCOPE_IDLE), IsParked := b\<rparr>)
     (\<lambda>tok xy. xy)
     ((with_line [(1, ''m00#''), (1, ''p0#''), (1, ''or0000#'')])
        \<lparr>TrackState := SCOPE_PARKED, IsParked := True\<rparr>) 2 =
   Inr (SCOPE_IDLE,
        idle_driver
          \<lparr>PortFD := \<lparr>rx = [], tx_limit = None,
                      tx = ['':X34#'', '':X38#'', '':X42#''],
                      reads = [(CHR ''#'', 0), (CHR ''#'', 2), (CHR ''#'', 0),
                               (CHR ''#'', 0), (CHR ''#'', 2), (CHR ''#'', 0),
                               (CHR ''#'', 0), (CHR ''#'', 2), (CHR ''#'', 0)]\<rparr>,
           TrackingAdjustmentNP_s := IPS_OK, delays := 3\<rparr>)"
  by code_simp

lemma example_unpark_coordinates:
  "getEqCoordinates
     (idle_driver
          \<lparr>PortFD := \<lparr>rx = [], tx_limit = None,
                      tx = ['':X34#'', '':X38#'', '':X42#''],
                      reads = [(CHR ''#'', 0), (CHR ''#'', 2), (CHR ''#'', 0),
                               (CHR ''#'', 0), (CHR ''#'', 2), (CHR ''#'', 0),
                               (CHR ''#'', 0), (CHR ''#'', 2), (CHR ''#'', 0)]\<rparr>,
           TrackingAdjustmentNP_s := IPS_OK, delays := 3\<rparr>) 2 =
   (None,
    idle_driver
          \<lparr>PortFD := \<lparr>rx = [], tx_limit = None,
                      tx = ['':X34#'', '':X38#'', '':X42#'', '':X590#''],
                      reads = [(CHR ''#'', 0), (CHR ''#'', 2), (CHR ''#'', 0),
                               (CHR ''#'', 0), (CHR ''#'', 2), (CHR ''#'', 0),
                               (CHR ''#'', 0), (CHR ''#'', 2), (CHR ''#'', 0),
                               (CHR ''#'', 0), (CHR ''#'', 2)]\<rparr>,
           TrackingAdjustmentNP_s := IPS_OK, delays := 4\<rparr>)"
  by code_simp

theorem ReadScopeStatus_coordinates_fail_witness:
  "connected ((with_line [(1, ''m00#''), (1, ''p2#''), (1, ''or0000#''), (1, ''RD1#'')])
        \<lparr>TrackState := SCOPE_PARKING\<rparr>) \<and>
   \<not> simulation ((with_line [(1, ''m00#''), (1, ''p2#''), (1, ''or0000#''), (1, ''RD1#'')])
        \<lparr>TrackState := SCOPE_PARKING\<rparr>) \<and>
   ReadScopeStatus (\<lambda>s. s)
     (\<lambda>s b. s\<lparr>TrackState := (if b then SCOPE_PARKED else SCOPE_IDLE), IsParked := b\<rparr>)
     (\<lambda>tok xy. xy) 2 (CHR ''X'')
     ((with_line [(1, ''m00#''), (1, ''p2#''), (1, ''or0000#''), (1, ''RD1#'')])
        \<lparr>TrackState := SCOPE_PARKING\<rparr>) =
     (False,
      idle_driver
          \<lparr>PortFD := \<lparr>rx = [], tx_limit = None,
                      tx = ['':X34#'', '':X38#'', '':X42#'', '':X590#''],
                      reads = [(CHR ''#'', 0), (CHR ''#'', 2), (CHR ''#'', 0),
                               (CHR ''#'', 0), (CHR ''#'', 2), (CHR ''#'', 0),
                               (CHR ''#'', 0), (CHR ''#'', 2), (CHR ''#'', 0),
                               (CHR ''#'', 0), (CHR ''#'', 2), (CHR ''#'', 0)]\<rparr>,
           TrackState := SCOPE_PARKED, IsParked := True,
           TrackingAdjustmentNP_s := IPS_OK, delays := 4\<rparr>) \<and>
   published_position ((with_line [(1, ''m00#''), (1, ''p2#''), (1, ''or0000#''), (1, ''RD1#'')])
        \<lparr>TrackState := SCOPE_PARKING\<rparr>) =
     (SCOPE_PARKING, 0, 0, (0, 0), PIER_UNKNOWN) \<and>
   published_position
     (idle_driver
          \<lparr>PortFD := \<lparr>rx = [], tx_limit = None,
                      tx = ['':X34#'', '':X38#'', '':X42#'', '':X590#''],
                      reads = [(CHR ''#'', 0), (CHR ''#'', 2), (CHR ''#'', 0),
                               (CHR ''#'', 0), (CHR ''#'', 2), (CHR ''#'', 0),
                               (CHR ''#'', 0), (CHR ''#'', 2), (CHR ''#'', 0),
                               (CHR ''#'', 0), (CHR ''#'', 2), (CHR ''#'', 0)]\<rparr>,
           TrackState := SCOPE_PARKED, IsParked := True,
           TrackingAdjustmentNP_s := IPS_OK, delays := 4\<rparr>) =
     (SCOPE_PARKED, 0, 0, (0, 0), PIER_UNKNOWN) \<and>
   connected (idle_driver\<lparr>PortFD := \<lparr>rx = [(1, ''m10#''), (1, ''p0#''), (1, ''or0123#'')],
                               tx_limit = Some 3, tx = [], reads = []\<rparr>\<rparr>) \<and>
   \<not> simulation (idle_driver\<lparr>PortFD := \<lparr>rx = [(1, ''m10#''), (1, ''p0#''), (1, ''or0123#'')],
                               tx_limit = Some 3, tx = [], reads = []\<rparr>\<rparr>) \<and>
   ReadScopeStatus (\<lambda>s. s)
     (\<lambda>s b. s\<lparr>TrackState := (if b then SCOPE_PARKED else SCOPE_IDLE), IsParked := b\<rparr>)
     (\<lambda>tok xy. xy) 2 (CHR ''X'')
     (idle_driver\<lparr>PortFD := \<lparr>rx = [(1, ''m10#''), (1, ''p0#''), (1, ''or0123#'')],
                               tx_limit = Some 3, tx = [], reads = []\<rparr>\<rparr>) =
     (False,
      idle_driver
          \<lparr>PortFD := \<lparr>rx = [], tx_limit = Some 3,
                      tx = ['':X34#'', '':X38#'', '':X42#''],
                      reads = [(CHR ''#'', 0), (CHR ''#'', 2), (CHR ''#'', 0),
                               (CHR ''#'', 0), (CHR ''#'', 2), (CHR ''#'', 0),
                               (CHR ''#'', 0), (CHR ''#'', 2), (CHR ''#'', 0),
                               (CHR ''#'', 0)]\<rparr>,
           TrackingAdjustment_value := 123 / 100,
           TrackingAdjustmentNP_s := IPS_OK, delays := 4\<rparr>) \<and>
   published_position
     (idle_driver
          \<lparr>PortFD := \<lparr>rx = [], tx_limit = Some 3,
                      tx = ['':X34#'', '':X38#'', '':X42#''],
                      reads = [(CHR ''#'', 0), (CHR ''#'', 2), (CHR ''#'', 0),
                               (CHR ''#'', 0), (CHR ''#'', 2), (CHR ''#'', 0),
                               (CHR ''#'', 0), (CHR ''#'', 2), (CHR ''#'', 0),
                               (CHR ''#'', 0)]\<rparr>,
           TrackingAdjustment_value := 123 / 100,
           TrackingAdjustmentNP_s := IPS_OK, delays := 4\<rparr>) =
   published_position (idle_driver\<lparr>PortFD := \<lparr>rx = [(1, ''m10#''), (1, ''p0#''), (1, ''or0123#'')],
                               tx_limit = Some 3, tx = [], reads = []\<rparr>\<rparr>) \<and>
   connected ((with_line [(1, ''m00#''), (1, ''p0#''), (1, ''or0000#'')])
        \<lparr>TrackState := SCOPE_PARKED, IsParked := True\<rparr>) \<and>
   \<not> simulation ((with_line [(1, ''m00#''), (1, ''p0#''), (1, ''or0000#'')])
        \<lparr>TrackState := SCOPE_PARKED, IsParked := True\<rparr>) \<and>
   ReadScopeStatus (\<lambda>s. s)
     (\<lambda>s b. s\<lparr>TrackState := (if b then SCOPE_PARKED else SCOPE_IDLE), IsParked := b\<rparr>)
     (\<lambda>tok xy. xy) 2 (CHR ''X'')
     ((with_line [(1, ''m00#''), (1, ''p0#''), (1, ''or0000#'')])
        \<lparr>TrackState := SCOPE_PARKED, IsParked := True\<rparr>) =
     (False,
      idle_driver
          \<lparr>PortFD := \<lparr>rx = [], tx_limit = None,
                      tx = ['':X34#'', '':X38#'', '':X42#'', '':X590#''],
                      reads = [(CHR ''#'', 0), (CHR ''#'', 2), (CHR ''#'', 0),
                               (CHR ''#'', 0), (CHR ''#'', 2), (CHR ''#'', 0),
                               (CHR ''#'', 0), (CHR ''#'', 2), (CHR ''#'', 0),
                               (CHR ''#'', 0), (CHR ''#'', 2)]\<rparr>,
           TrackingAdjustmentNP_s := IPS_OK, delays := 4\<rparr>) \<and>
   published_position ((with_line [(1, ''m00#''), (1, ''p0#''), (1, ''or0000#'')])
        \<lparr>TrackState := SCOPE_PARKED, IsParked := True\<rparr>) =
     (SCOPE_PARKED, 0, 0, (0, 0), PIER_UNKNOWN) \<and>
   published_position
     (idle_driver
          \<lparr>PortFD := \<lparr>rx = [], tx_limit = None,
                      tx = ['':X34#'', '':X38#'', '':X42#'', '':X590#''],
                      reads = [(CHR ''#'', 0), (CHR ''#'', 2), (CHR ''#'', 0),
                               (CHR ''#'', 0), (CHR ''#'', 2), (CHR ''#'', 0),
                               (CHR ''#'', 0), (CHR ''#'', 2), (CHR ''#'', 0),
                               (CHR ''#'', 0), (CHR ''#'', 2)]\<rparr>,
           TrackingAdjustmentNP_s := IPS_OK, delays := 4\<rparr>) =
     (SCOPE_IDLE, 0, 0, (0, 0), PIER_UNKNOWN)"
proof -
  have h1: "connected ((with_line [(1, ''m00#''), (1, ''p2#''), (1, ''or0000#''), (1, ''RD1#'')])
        \<lparr>TrackState := SCOPE_PARKING\<rparr>)"
    and h2: "\<not> simulation ((with_line [(1, ''m00#''), (1, ''p2#''), (1, ''or0000#''), (1, ''RD1#'')])
        \<lparr>TrackState := SCOPE_PARKING\<rparr>)"
    and h3: "connected (idle_driver\<lparr>PortFD := \<lparr>rx = [(1, ''m10#''), (1, ''p0#''), (1, ''or0123#'')],
                               tx_limit = Some 3, tx = [], reads = []\<rparr>\<rparr>)"
    and h4: "\<not> simulation (idle_driver\<lparr>PortFD := \<lparr>rx = [(1, ''m10#''), (1, ''p0#''), (1, ''or0123#'')],
                               tx_limit = Some 3, tx = [], reads = []\<rparr>\<rparr>)"
    and h5: "connected ((with_line [(1, ''m00#''), (1, ''p0#''), (1, ''or0000#'')])
        \<lparr>TrackState := SCOPE_PARKED, IsParked := True\<rparr>)"
    and h6: "\<not> simulation ((with_line [(1, ''m00#''), (1, ''p0#''), (1, ''or0000#'')])
        \<lparr>TrackState := SCOPE_PARKED, IsParked := True\<rparr>)"
    by (simp_all add: with_line_def idle_driver_def)
  have p: "published_position ((with_line [(1, ''m00#''), (1, ''p2#''), (1, ''or0000#''), (1, ''RD1#'')])
        \<lparr>TrackState := SCOPE_PARKING\<rparr>) =
     (SCOPE_PARKING, 0, 0, (0, 0), PIER_UNKNOWN)"
    "published_position
     (idle_driver
          \<lparr>PortFD := \<lparr>rx = [], tx_limit = None,
                      tx = ['':X34#'', '':X38#'', '':X42#'', '':X590#''],
                      reads = [(CHR ''#'', 0), (CHR ''#'', 2), (CHR ''#'', 0),
                               (CHR ''#'', 0), (CHR ''#'', 2), (CHR ''#'', 0),
                               (CHR ''#'', 0), (CHR ''#'', 2), (CHR ''#'', 0),
                               (CHR ''#'', 0), (CHR ''#'', 2), (CHR ''#'', 0)]\<rparr>,
           TrackState := SCOPE_PARKED, IsParked := True,
           TrackingAdjustmentNP_s := IPS_OK, delays := 4\<rparr>) =
     (SCOPE_PARKED, 0, 0, (0, 0), PIER_UNKNOWN)"
    "published_position
     (idle_driver
          \<lparr>PortFD := \<lparr>rx = [], tx_limit = Some 3,
                      tx = ['':X34#'', '':X38#'', '':X42#''],
                      reads = [(CHR ''#'', 0), (CHR ''#'', 2), (CHR ''#'', 0),
                               (CHR ''#'', 0), (CHR ''#'', 2), (CHR ''#'', 0),
                               (CHR ''#'', 0), (CHR ''#'', 2), (CHR ''#'', 0),
                               (CHR ''#'', 0)]\<rparr>,
           TrackingAdjustment_value := 123 / 100,
           TrackingAdjustmentNP_s := IPS_OK, delays := 4\<rparr>) =
   published_position (idle_driver\<lparr>PortFD := \<lparr>rx = [(1, ''m10#''), (1, ''p0#''), (1, ''or0123#'')],
                               tx_limit = Some 3, tx = [], reads = []\<rparr>\<rparr>)"
    "published_position ((with_line [(1, ''m00#''), (1, ''p0#''), (1, ''or0000#'')])
        \<lparr>TrackState := SCOPE_PARKED, IsParked := True\<rparr>) =
     (SCOPE_PARKED, 0, 0, (0, 0), PIER_UNKNOWN)"
    "published_position
     (idle_driver
          \<lparr>PortFD := \<lparr>rx = [], tx_limit = None,
                      tx = ['':X34#'', '':X38#'', '':X42#'', '':X590#''],
                      reads = [(CHR ''#'', 0), (CHR ''#'', 2), (CHR ''#'', 0),
                               (CHR ''#'', 0), (CHR ''#'', 2), (CHR ''#'', 0),
                               (CHR ''#'', 0), (CHR ''#'', 2), (CHR ''#'', 0),
                               (CHR ''#'', 0), (CHR ''#'', 2)]\<rparr>,
           TrackingAdjustmentNP_s := IPS_OK, delays := 4\<rparr>) =
     (SCOPE_IDLE, 0, 0, (0, 0), PIER_UNKNOWN)"
    by (simp_all add: published_position_def with_line_def idle_driver_def)
  show ?thesis
    using ReadScopeStatus_coordinates_fail
            [OF h1 h2 example_park_poll example_park_coordinates, of "\<lambda>s. s" "CHR ''X''"]
          ReadScopeStatus_coordinates_fail
            [OF h3 h4 example_refused_poll example_refused_coordinates, of "\<lambda>s. s" "CHR ''X''"]
          ReadScopeStatus_coordinates_fail
            [OF h5 h6 example_unpark_poll example_unpark_coordinates, of "\<lambda>s. s" "CHR ''X''"]
          h1 h2 h3 h4 h5 h6 p
    by simp
qed

theorem ReadScopeStatus_partial_update_counterexample:
  "ReadScopeStatus (\<lambda>s. s)
     (\<lambda>s b. s\<lparr>TrackState := (if b then SCOPE_PARKED else SCOPE_IDLE), IsParked := b\<rparr>)
     (\<lambda>tok xy. xy) 2 (CHR ''X'')
     (with_line [(1, ''m10#''), (1, ''p0#''), (1, ''or0123#'')]) =
     (False,
      idle_driver
          \<lparr>PortFD := \<lparr>rx = [], tx_limit = None,
                      tx = ['':X34#'', '':X38#'', '':X42#'', '':X590#''],
                      reads = [(CHR ''#'', 0), (CHR ''#'', 2), (CHR ''#'', 0),
                               (CHR ''#'', 0), (CHR ''#'', 2), (CHR ''#'', 0),
                               (CHR ''#'', 0), (CHR ''#'', 2), (CHR ''#'', 0),
                               (CHR ''#'', 0), (CHR ''#'', 2)]\<rparr>,
           TrackingAdjustment_value := 123 / 100,
           TrackingAdjustmentNP_s := IPS_OK, delays := 4\<rparr>) \<and>
   TrackingAdjustment_value (with_line [(1, ''m10#''), (1, ''p0#''), (1, ''or0123#'')]) = 0 \<and>
   TrackingAdjustmentNP_s (with_line [(1, ''m10#''), (1, ''p0#''), (1, ''or0123#'')]) = IPS_IDLE"
proof -
  have "ReadScopeStatus (\<lambda>s. s)
     (\<lambda>s b. s\<lparr>TrackState := (if b then SCOPE_PARKED else SCOPE_IDLE), IsParked := b\<rparr>)
     (\<lambda>tok xy. xy) 2 (CHR ''X'')
     (with_line [(1, ''m10#''), (1, ''p0#''), (1, ''or0123#'')]) =
     (False,
      idle_driver
          \<lparr>PortFD := \<lparr>rx = [], tx_limit = None,
                      tx = ['':X34#'', '':X38#'', '':X42#'', '':X590#''],
                      reads = [(CHR ''#'', 0), (CHR ''#'', 2), (CHR ''#'', 0),
                               (CHR ''#'', 0), (CHR ''#'', 2), (CHR ''#'', 0),
                               (CHR ''#'', 0), (CHR ''#'', 2), (CHR ''#'', 0),
                               (CHR ''#'', 0), (CHR ''#'', 2)]\<rparr>,
           TrackingAdjustment_value := 123 / 100,
           TrackingAdjustmentNP_s := IPS_OK, delays := 4\<rparr>)"
    by code_simp
  then show ?thesis
    by (simp add: with_line_def idle_driver_def)
qed

end
